theory Spec2Isabelle
  imports Complex_Main "HOL-Library.Sublist"
begin

section \<open>Category-to-account resolution of \<^verbatim>\<open>WaveClient.find_best_account_match\<close>\<close>

text \<open>
  The development embeds \<^verbatim>\<open>find_best_account_match\<close> of \<^verbatim>\<open>src/mcp_server.py\<close>
  (lines 445-668) together with the synonym tables it reads (lines 77-106).

  Conventions of the embedding:
  \<^item> A Python \<^verbatim>\<open>str\<close> is a \<open>string\<close>. Only the ASCII letters have case, and the
    classes of whitespace, digits and word characters are the ASCII parts of Python's
    classes; the embedding is the program on ASCII text.
  \<^item> The account dictionaries \<^verbatim>\<open>acc["node"]\<close> are records.
  \<^item> Scores are rationals. Every score is a decimal literal or a quotient \<open>2 * M / T\<close>
    of two lengths, and the program only compares scores, so the comparisons on rationals
    agree with the ones on doubles for texts shorter than \<open>2 ^ 49\<close> characters.
  \<^item> Three operations of Python's library are parameters of the embedding (record
    \<open>pylib\<close>): the similarity ratio of \<^verbatim>\<open>difflib.SequenceMatcher\<close>, the
    formatting of a float with two decimals, and the iteration order of a \<^verbatim>\<open>set\<close>.
  \<^item> An exception is a value \<open>Inl e\<close> of the result type.
  \<^item> The calls of \<^verbatim>\<open>logger.info\<close> write a log and are left out.
\<close>

subsection \<open>Python strings\<close>

definition is_upper :: "char \<Rightarrow> bool" where
  "is_upper c = (c \<in> set ''ABCDEFGHIJKLMNOPQRSTUVWXYZ'')"

definition is_lower :: "char \<Rightarrow> bool" where
  "is_lower c = (c \<in> set ''abcdefghijklmnopqrstuvwxyz'')"

definition is_digit :: "char \<Rightarrow> bool" where
  "is_digit c = (c \<in> set ''0123456789'')"

text \<open>\<^verbatim>\<open>str.isspace\<close> on ASCII: tab, line feed, vertical tab, form feed, carriage
  return, the four separators \<open>0x1C\<close> to \<open>0x1F\<close>, and the space.\<close>

definition is_space :: "char \<Rightarrow> bool" where
  "is_space c = (c \<in> set [CHR 0x09, CHR 0x0A, CHR 0x0B, CHR 0x0C, CHR 0x0D,
                            CHR 0x1C, CHR 0x1D, CHR 0x1E, CHR 0x1F, CHR 0x20])"

text \<open>The class \<^verbatim>\<open>\w\<close> of \<^verbatim>\<open>re\<close>: letters, digits and the underscore.\<close>

definition is_word :: "char \<Rightarrow> bool" where
  "is_word c = (is_upper c \<or> is_lower c \<or> is_digit c \<or> c = CHR ''_'')"

definition lower_char :: "char \<Rightarrow> char" where
  "lower_char c = (if is_upper c then char_of (of_char c + (32::nat)) else c)"

text \<open>\<^verbatim>\<open>s.lower()\<close>\<close>

definition lower :: "string \<Rightarrow> string" where
  "lower s = map lower_char s"

text \<open>\<^verbatim>\<open>s.strip()\<close>\<close>

definition strip :: "string \<Rightarrow> string" where
  "strip s = rev (dropWhile is_space (rev (dropWhile is_space s)))"

text \<open>\<^verbatim>\<open>s.split()\<close>: the maximal runs of characters that are not whitespace. The first
  argument is the word read so far.\<close>

fun split_from :: "string \<Rightarrow> string \<Rightarrow> string list" where
  "split_from w [] = (if w = [] then [] else [w])"
| "split_from w (c # cs) =
     (if is_space c then (if w = [] then split_from [] cs else w # split_from [] cs)
      else split_from (w @ [c]) cs)"

definition split :: "string \<Rightarrow> string list" where
  "split s = split_from [] s"

text \<open>\<^verbatim>\<open>s.startswith(p)\<close>\<close>

definition startswith :: "string \<Rightarrow> string \<Rightarrow> bool" where
  "startswith s p = prefix p s"

text \<open>\<^verbatim>\<open>sub in s\<close> on strings: \<open>sub\<close> occurs in \<open>s\<close> as a contiguous block.\<close>

fun contains :: "string \<Rightarrow> string \<Rightarrow> bool" where
  "contains sub [] = (sub = [])"
| "contains sub (c # cs) = (prefix sub (c # cs) \<or> contains sub cs)"

text \<open>\<^verbatim>\<open>sep.join(xs)\<close>\<close>

fun join :: "string \<Rightarrow> string list \<Rightarrow> string" where
  "join sep [] = []"
| "join sep [x] = x"
| "join sep (x # y # ys) = x @ sep @ join sep (y # ys)"

text \<open>The single quote, which the messages put around names.\<close>

definition q :: string where
  "q = [CHR 0x27]"

subsection \<open>Regular expressions: \<^verbatim>\<open>re.findall\<close>\<close>

text \<open>
  The fragment of \<^verbatim>\<open>re\<close> that the four patterns of the program use. A match is
  searched by backtracking: \<open>rmatch\<close> lists the ways a pattern matches at a position, in
  the order the backtracking matcher tries them, and the first one is the match.
  A position is the character before it (none at the start of the text), the rest of
  the text, and the text of the group closed so far.
\<close>

datatype cls = CChar char | CRange char char | CDigit | CSpace

fun in_cls :: "cls \<Rightarrow> char \<Rightarrow> bool" where
  "in_cls (CChar a) c = (c = a)"
| "in_cls (CRange a b) c = ((of_char a :: nat) \<le> of_char c \<and> (of_char c :: nat) \<le> of_char b)"
| "in_cls CDigit c = is_digit c"
| "in_cls CSpace c = is_space c"

datatype regex =
    Eps
  | WordB
  | Cls cls
  | Plus cls
  | Seq regex regex
  | Group regex

type_synonym mpos = "char option \<times> string \<times> string option"

text \<open>\<^verbatim>\<open>\b\<close>: exactly one of the two neighbours is a word character.\<close>

definition at_boundary :: "char option \<Rightarrow> string \<Rightarrow> bool" where
  "at_boundary prev rest =
     ((case prev of None \<Rightarrow> False | Some c \<Rightarrow> is_word c) \<noteq>
      (case rest of [] \<Rightarrow> False | c # _ \<Rightarrow> is_word c))"

text \<open>\<^verbatim>\<open>x+\<close> on a character class is greedy: the longest run first, then shorter ones.\<close>

definition plus_ends :: "cls \<Rightarrow> string \<Rightarrow> nat list" where
  "plus_ends k s = rev [1 ..< Suc (length (takeWhile (in_cls k) s))]"

fun rmatch :: "regex \<Rightarrow> mpos \<Rightarrow> mpos list" where
  "rmatch Eps st = [st]"
| "rmatch WordB (p, s, g) = (if at_boundary p s then [(p, s, g)] else [])"
| "rmatch (Cls k) (p, s, g) =
     (case s of [] \<Rightarrow> [] | c # cs \<Rightarrow> if in_cls k c then [(Some c, cs, g)] else [])"
| "rmatch (Plus k) (p, s, g) =
     map (\<lambda>n. (Some (s ! (n - 1)), drop n s, g)) (plus_ends k s)"
| "rmatch (Seq a b) st = concat (map (rmatch b) (rmatch a st))"
| "rmatch (Group r) (p, s, g) =
     map (\<lambda>(p', s', g'). (p', s', Some (take (length s - length s') s))) (rmatch r (p, s, g))"

text \<open>The match at one position: its length and what \<^verbatim>\<open>findall\<close> reports for it (the
  group when the pattern has one, the whole match otherwise).\<close>

definition match_at :: "regex \<Rightarrow> char option \<Rightarrow> string \<Rightarrow> (nat \<times> string) option" where
  "match_at r prev s =
     (case rmatch r (prev, s, None) of
        [] \<Rightarrow> None
      | (p', s', g) # _ \<Rightarrow>
          (let n = length s - length s'
           in Some (n, case g of None \<Rightarrow> take n s | Some t \<Rightarrow> t)))"

text \<open>
  \<^verbatim>\<open>re.findall\<close> scans from left to right: where the pattern matches, the match is
  reported and the scan goes on behind it; elsewhere it moves one character on.
  \<open>skip\<close> counts the characters of the last match that are still to be passed.
\<close>

fun findall_from :: "regex \<Rightarrow> char option \<Rightarrow> nat \<Rightarrow> string \<Rightarrow> string list" where
  "findall_from r prev skip [] =
     (if skip = 0 then (case match_at r prev [] of None \<Rightarrow> [] | Some (n, t) \<Rightarrow> [t]) else [])"
| "findall_from r prev skip (c # cs) =
     (if skip > 0 then findall_from r (Some c) (skip - 1) cs
      else (case match_at r prev (c # cs) of
              None \<Rightarrow> findall_from r (Some c) 0 cs
            | Some (n, t) \<Rightarrow> t # findall_from r (Some c) (n - 1) cs))"

definition findall :: "regex \<Rightarrow> string \<Rightarrow> string list" where
  "findall r s = findall_from r None 0 s"

fun seqs :: "regex list \<Rightarrow> regex" where
  "seqs [] = Eps"
| "seqs (r # rs) = Seq r (seqs rs)"

definition lit :: "string \<Rightarrow> regex" where
  "lit s = seqs (map (\<lambda>c. Cls (CChar c)) s)"

text \<open>The patterns of lines 525-530, in the order of the source.\<close>

definition pat_unit_range :: regex where
  "pat_unit_range =
     seqs [WordB, Group (seqs [lit ''14'', Cls (CRange (CHR ''2'') (CHR ''6''))]), WordB]"

definition pat_apartment :: regex where
  "pat_apartment = seqs [WordB, lit ''apartment'', Plus CSpace, Group (Plus CDigit), WordB]"

definition pat_unit :: regex where
  "pat_unit = seqs [WordB, lit ''unit'', Plus CSpace, Group (Plus CDigit), WordB]"

definition pat_three_digits :: regex where
  "pat_three_digits = seqs [WordB, Group (seqs [Cls CDigit, Cls CDigit, Cls CDigit]), WordB]"

definition number_patterns :: "regex list" where
  "number_patterns = [pat_unit_range, pat_apartment, pat_unit, pat_three_digits]"

subsection \<open>Library parameters\<close>

text \<open>
  \<^item> \<open>ratio a b\<close> is \<^verbatim>\<open>SequenceMatcher(None, a, b).ratio()\<close>;
  \<^item> \<open>fmt2f x\<close> is the text of \<^verbatim>\<open>f"{x:.2f}"\<close>;
  \<^item> \<open>set_order xs\<close> is \<^verbatim>\<open>list(set(xs))\<close>: the elements of \<open>xs\<close> in the order in
    which the set of them is iterated, which Python leaves open.
\<close>

record pylib =
  ratio :: "string \<Rightarrow> string \<Rightarrow> rat"
  fmt2f :: "rat \<Rightarrow> string"
  set_order :: "string list \<Rightarrow> string list"

text \<open>What is known of \<^verbatim>\<open>list(set(xs))\<close>: it has the elements of \<open>xs\<close>, each once.\<close>

definition set_order_ok :: "pylib \<Rightarrow> bool" where
  "set_order_ok L = (\<forall>xs. set (set_order L xs) = set xs \<and> distinct (set_order L xs))"

subsection \<open>Data\<close>

text \<open>An account node: \<^verbatim>\<open>node["id"]\<close>, \<^verbatim>\<open>node["name"]\<close>, \<^verbatim>\<open>node["type"]["name"]\<close>,
  \<^verbatim>\<open>node["subtype"]["name"]\<close> (absent when the node has no subtype or the subtype no
  name) and \<^verbatim>\<open>node["isArchived"]\<close>.\<close>

record account =
  acc_id :: string
  name :: string
  type_name :: string
  subtype_name :: "string option"
  isArchived :: bool

text \<open>The returned tuple \<^verbatim>\<open>(account_id, account_name, match_score, explanation)\<close>.\<close>

type_synonym match_result = "string option \<times> string option \<times> rat \<times> string"

datatype py_error = IndexError

text \<open>\<^verbatim>\<open>xs[0]\<close>\<close>

definition first_elem :: "'a list \<Rightarrow> py_error + 'a" where
  "first_elem xs = (case xs of [] \<Rightarrow> Inl IndexError | x # _ \<Rightarrow> Inr x)"

type_synonym synonym_table = "(string \<times> string list) list"

text \<open>The tables of lines 77-106; a dictionary is iterated in the order of its entries.\<close>

definition EXPENSE_SYNONYMS :: synonym_table where
  "EXPENSE_SYNONYMS =
    [(''food'', [''meals'', ''restaurant'', ''dining'', ''eating'', ''lunch'', ''dinner'', ''breakfast'']),
     (''gas'', [''fuel'', ''gasoline'', ''petrol'', ''diesel'']),
     (''travel'', [''transportation'', ''transport'', ''trip'', ''journey'']),
     (''office'', [''supplies'', ''equipment'', ''materials'', ''stationery'']),
     (''car'', [''vehicle'', ''auto'', ''automobile'', ''automotive'']),
     (''phone'', [''mobile'', ''cellular'', ''telecommunications'', ''telecom'']),
     (''internet'', [''web'', ''online'', ''broadband'', ''wifi'']),
     (''insurance'', [''coverage'', ''policy'', ''premium'']),
     (''rent'', [''rental'', ''lease'', ''leasing'']),
     (''utilities'', [''electric'', ''electricity'', ''water'', ''gas'', ''power'']),
     (''marketing'', [''advertising'', ''promotion'', ''ads'']),
     (''software'', [''subscription'', ''saas'', ''app'', ''application'']),
     (''training'', [''education'', ''learning'', ''course'', ''workshop'']),
     (''legal'', [''attorney'', ''lawyer'', ''law'', ''professional'']),
     (''accounting'', [''bookkeeping'', ''tax'', ''financial'']),
     (''maintenance'', [''repair'', ''service'', ''upkeep'']),
     (''entertainment'', [''client'', ''business''])]"

definition INCOME_SYNONYMS :: synonym_table where
  "INCOME_SYNONYMS =
    [(''sales'', [''revenue'', ''income'', ''receipts'', ''earnings'']),
     (''consulting'', [''services'', ''professional'', ''advisory'', ''expertise'']),
     (''freelance'', [''contract'', ''project'', ''gig'', ''independent'']),
     (''commission'', [''referral'', ''bonus'', ''incentive'']),
     (''interest'', [''dividend'', ''investment'', ''return'']),
     (''rental'', [''rent'', ''lease'', ''property'', ''real estate'', ''rental income'',
                   ''rent income'', ''property income'', ''leasing'', ''tenant'']),
     (''royalty'', [''licensing'', ''intellectual property'', ''patent'']),
     (''other'', [''miscellaneous'', ''misc'', ''various'', ''general''])]"

subsection \<open>Account catalog filter (lines 467-499)\<close>

definition strategy1 :: "account list \<Rightarrow> string \<Rightarrow> account list" where
  "strategy1 accounts account_type =
     filter (\<lambda>acc. type_name acc = account_type \<and> \<not> isArchived acc) accounts"

definition strategy2 :: "account list \<Rightarrow> string \<Rightarrow> account list" where
  "strategy2 accounts account_type =
     filter (\<lambda>acc. lower (type_name acc) = lower account_type \<and> \<not> isArchived acc) accounts"

definition income_variations :: "string list" where
  "income_variations = [''Income'', ''INCOME'', ''Revenue'', ''REVENUE'', ''income'']"

definition strategy3 :: "account list \<Rightarrow> account list" where
  "strategy3 accounts =
     filter (\<lambda>acc. type_name acc \<in> set income_variations \<and> \<not> isArchived acc) accounts"

definition income_subtypes :: "string list" where
  "income_subtypes = [''INCOME'', ''REVENUE'', ''SALES'', ''OTHER_INCOME'']"

definition strategy4 :: "account list \<Rightarrow> account list" where
  "strategy4 accounts =
     filter (\<lambda>acc. (case subtype_name acc of None \<Rightarrow> [] | Some s \<Rightarrow> s) \<in> set income_subtypes
                   \<and> \<not> isArchived acc) accounts"

text \<open>The four assignments to \<^verbatim>\<open>filtered_accounts\<close>, one after the other.\<close>

definition filter_accounts :: "account list \<Rightarrow> string \<Rightarrow> account list" where
  "filter_accounts accounts account_type =
     (let f1 = strategy1 accounts account_type;
          f2 = (if f1 = [] then strategy2 accounts account_type else f1);
          f3 = (if f2 = [] \<and> account_type = ''Income'' then strategy3 accounts else f2);
          f4 = (if f3 = [] \<and> account_type = ''Income'' then strategy4 accounts else f3)
      in f4)"

subsection \<open>Numeric token extractor (lines 519-537)\<close>

text \<open>\<^verbatim>\<open>f"{user_category} {user_context or ''}"\<close>\<close>

definition all_user_text :: "string \<Rightarrow> string option \<Rightarrow> string" where
  "all_user_text user_category user_context =
     user_category @ '' '' @ (case user_context of None \<Rightarrow> [] | Some c \<Rightarrow> c)"

text \<open>The loop over the given patterns, extending the list with the matches of each.\<close>

definition pattern_matches :: "regex list \<Rightarrow> string \<Rightarrow> string list" where
  "pattern_matches patterns s = fold (\<lambda>pattern acc. acc @ findall pattern (lower s)) patterns []"

definition extract_numbers :: "pylib \<Rightarrow> regex list \<Rightarrow> string \<Rightarrow> string option \<Rightarrow> string list" where
  "extract_numbers L patterns user_category user_context =
     set_order L (pattern_matches patterns (all_user_text user_category user_context))"

definition apartment_numbers :: "pylib \<Rightarrow> string \<Rightarrow> string option \<Rightarrow> string list" where
  "apartment_numbers L user_category user_context =
     extract_numbers L number_patterns user_category user_context"

subsection \<open>Stage 0: apartment number (lines 541-548)\<close>

definition rental_hit :: "string \<Rightarrow> account \<Rightarrow> bool" where
  "rental_hit number account =
     (contains number (lower (name account)) \<and> contains ''rental'' (lower (name account)))"

definition stage0_result :: "string \<Rightarrow> account \<Rightarrow> match_result" where
  "stage0_result number account =
     (Some (acc_id account), Some (name account), 98 / 100,
      ''Apartment-specific match: Found apartment '' @ number @ '' in '' @ q @ name account @ q)"

fun stage0_scan :: "string \<Rightarrow> account list \<Rightarrow> match_result option" where
  "stage0_scan number [] = None"
| "stage0_scan number (account # rest) =
     (if rental_hit number account then Some (stage0_result number account)
      else stage0_scan number rest)"

fun stage0_loop :: "string list \<Rightarrow> account list \<Rightarrow> match_result option" where
  "stage0_loop [] filtered_accounts = None"
| "stage0_loop (number # rest) filtered_accounts =
     (case stage0_scan number filtered_accounts of
        Some r \<Rightarrow> Some r
      | None \<Rightarrow> stage0_loop rest filtered_accounts)"

definition stage0 :: "string list \<Rightarrow> string \<Rightarrow> account list \<Rightarrow> match_result option" where
  "stage0 numbers account_type filtered_accounts =
     (if numbers \<noteq> [] \<and> account_type = ''Income'' then stage0_loop numbers filtered_accounts
      else None)"

subsection \<open>Stage 1: substring and prefix (lines 550-565)\<close>

definition exact_result :: "string \<Rightarrow> account \<Rightarrow> match_result" where
  "exact_result user_category account =
     (Some (acc_id account), Some (name account), 1,
      ''Exact substring match: '' @ q @ user_category @ q @ '' found in '' @ q @ name account @ q)"

definition prefix_result :: "string \<Rightarrow> account \<Rightarrow> match_result" where
  "prefix_result user_category account =
     (Some (acc_id account), Some (name account), 95 / 100,
      ''Prefix match: '' @ q @ name account @ q @ '' starts with '' @ q @ user_category @ q)"

definition category_prefix_result :: "string \<Rightarrow> string \<Rightarrow> account \<Rightarrow> match_result" where
  "category_prefix_result user_category w account =
     (Some (acc_id account), Some (name account), 92 / 100,
      ''Category prefix match: '' @ q @ user_category @ q @ '' starts with '' @ q @ w @ q
        @ '' from '' @ q @ name account @ q)"

fun stage1 :: "string \<Rightarrow> string \<Rightarrow> account list \<Rightarrow> py_error + match_result option" where
  "stage1 user_category user_category_lower [] = Inr None"
| "stage1 user_category user_category_lower (account # rest) =
     (let account_name_lower = lower (name account) in
      if contains user_category_lower account_name_lower
      then Inr (Some (exact_result user_category account))
      else if startswith account_name_lower user_category_lower
      then Inr (Some (prefix_result user_category account))
      else (let words_in_account = split account_name_lower in
            if words_in_account = [] then stage1 user_category user_category_lower rest
            else (case first_elem words_in_account of
                    Inl e \<Rightarrow> Inl e
                  | Inr w \<Rightarrow>
                      if startswith user_category_lower w
                      then Inr (Some (category_prefix_result user_category w account))
                      else stage1 user_category user_category_lower rest)))"

subsection \<open>Stage 2: similarity and synonyms (lines 567-619)\<close>

text \<open>The running best: \<^verbatim>\<open>best_match\<close>, \<^verbatim>\<open>best_score\<close> and \<^verbatim>\<open>best_explanation\<close>.\<close>

type_synonym best = "account option \<times> rat \<times> string"

text \<open>\<^verbatim>\<open>if score > best_score:\<close> followed by the three assignments.\<close>

definition update_best :: "account \<Rightarrow> rat \<Rightarrow> string \<Rightarrow> best \<Rightarrow> best" where
  "update_best account score explanation b =
     (if score > fst (snd b) then (Some account, score, explanation) else b)"

definition direct_step :: "pylib \<Rightarrow> string \<Rightarrow> account \<Rightarrow> best \<Rightarrow> best" where
  "direct_step L user_category_lower account b =
     (let similarity = ratio L user_category_lower (lower (name account)) in
      update_best account similarity
        (''Direct fuzzy match (score: '' @ fmt2f L similarity @ '')'') b)"

definition word_step :: "pylib \<Rightarrow> string \<Rightarrow> string \<Rightarrow> account \<Rightarrow> string \<Rightarrow> best \<Rightarrow> best" where
  "word_step L user_category user_category_lower account word b =
     (let word_similarity = ratio L user_category_lower word in
      update_best account word_similarity
        (''Word match: '' @ q @ user_category @ q @ '' ~ '' @ q @ word @ q
           @ '' (score: '' @ fmt2f L word_similarity @ '')'') b)"

definition key_step :: "string \<Rightarrow> account \<Rightarrow> string \<Rightarrow> best \<Rightarrow> best" where
  "key_step user_category account key b =
     (if contains key (lower (name account))
      then update_best account (9 / 10)
             (''Synonym match: '' @ q @ user_category @ q @ '' relates to '' @ q @ key @ q
                @ '' found in '' @ q @ name account @ q) b
      else b)"

definition indirect_step :: "string \<Rightarrow> account \<Rightarrow> string \<Rightarrow> best \<Rightarrow> best" where
  "indirect_step user_category account synonym b =
     (if contains synonym (lower (name account))
      then update_best account (85 / 100)
             (''Synonym match: '' @ q @ user_category @ q @ '' relates to '' @ q @ synonym @ q
                @ '' found in '' @ q @ name account @ q) b
      else b)"

definition bidirectional_step :: "string \<Rightarrow> account \<Rightarrow> string \<Rightarrow> best \<Rightarrow> best" where
  "bidirectional_step user_category account synonym b =
     (if contains synonym (lower (name account))
      then update_best account (88 / 100)
             (''Synonym match: '' @ q @ user_category @ q @ '' relates to '' @ q @ synonym @ q
                @ '' in '' @ q @ name account @ q) b
      else b)"

text \<open>The body of the loop over \<^verbatim>\<open>synonyms.items()\<close> (lines 589-615).\<close>

definition synonym_step ::
  "string \<Rightarrow> string \<Rightarrow> account \<Rightarrow> string \<times> string list \<Rightarrow> best \<Rightarrow> best" where
  "synonym_step user_category user_category_lower account entry b =
     (let key = fst entry; synonym_list = snd entry;
          b1 = (if user_category_lower = key \<or> user_category_lower \<in> set synonym_list
                then fold (indirect_step user_category account) synonym_list
                       (key_step user_category account key b)
                else b)
      in if user_category_lower \<in> set (key # synonym_list)
         then fold (bidirectional_step user_category account) (key # synonym_list) b1
         else b1)"

text \<open>The body of the loop over the filtered accounts (lines 569-615).\<close>

definition account_step ::
  "pylib \<Rightarrow> synonym_table \<Rightarrow> string \<Rightarrow> string \<Rightarrow> account \<Rightarrow> best \<Rightarrow> best" where
  "account_step L synonyms user_category user_category_lower account b =
     fold (synonym_step user_category user_category_lower account) synonyms
       (fold (word_step L user_category user_category_lower account)
          (split (lower (name account)))
          (direct_step L user_category_lower account b))"

definition stage2 ::
  "pylib \<Rightarrow> synonym_table \<Rightarrow> string \<Rightarrow> string \<Rightarrow> account list \<Rightarrow> best" where
  "stage2 L synonyms user_category user_category_lower filtered_accounts =
     fold (account_step L synonyms user_category user_category_lower) filtered_accounts
       (None, 0, [])"

subsection \<open>Stage 3: fallback (lines 621-668)\<close>

text \<open>\<^verbatim>\<open>', '.join([acc['name'] for acc in filtered_accounts[:3]])\<close>\<close>

definition available :: "account list \<Rightarrow> string" where
  "available filtered_accounts = join '', '' (map name (take 3 filtered_accounts))"

definition low_confidence_result :: "account \<Rightarrow> rat \<Rightarrow> string \<Rightarrow> account list \<Rightarrow> match_result" where
  "low_confidence_result best_match best_score best_explanation filtered_accounts =
     (Some (acc_id best_match), Some (name best_match), best_score,
      ''Best available match (low confidence): '' @ best_explanation
        @ ''. Available accounts: '' @ available filtered_accounts)"

text \<open>Lines 632-636: the key and synonyms of the first entry the category belongs to.\<close>

fun relevant_keywords :: "string \<Rightarrow> synonym_table \<Rightarrow> string list" where
  "relevant_keywords user_category_lower [] = []"
| "relevant_keywords user_category_lower ((key, synonym_list) # rest) =
     (if user_category_lower = key \<or> user_category_lower \<in> set synonym_list
      then key # synonym_list
      else relevant_keywords user_category_lower rest)"

definition keyword_result :: "string \<Rightarrow> string \<Rightarrow> account \<Rightarrow> account list \<Rightarrow> match_result" where
  "keyword_result user_category keyword account filtered_accounts =
     (Some (acc_id account), Some (name account), 5 / 10,
      ''Fallback match: Found '' @ q @ keyword @ q @ '' in '' @ q @ name account @ q
        @ '' based on category '' @ q @ user_category @ q
        @ ''. Available accounts: '' @ available filtered_accounts)"

fun keyword_scan :: "string list \<Rightarrow> account \<Rightarrow> string option" where
  "keyword_scan [] account = None"
| "keyword_scan (keyword # rest) account =
     (if contains keyword (lower (name account)) then Some keyword
      else keyword_scan rest account)"

fun keyword_loop ::
  "string \<Rightarrow> string list \<Rightarrow> account list \<Rightarrow> account list \<Rightarrow> match_result option" where
  "keyword_loop user_category keywords filtered_accounts [] = None"
| "keyword_loop user_category keywords filtered_accounts (account # rest) =
     (case keyword_scan keywords account of
        Some keyword \<Rightarrow> Some (keyword_result user_category keyword account filtered_accounts)
      | None \<Rightarrow> keyword_loop user_category keywords filtered_accounts rest)"

definition avoid_terms :: "string list" where
  "avoid_terms = [''foreign'', ''exchange'', ''gain'', ''loss'', ''interest'', ''dividend'']"

definition smart_result :: "account \<Rightarrow> account list \<Rightarrow> match_result" where
  "smart_result account filtered_accounts =
     (Some (acc_id account), Some (name account), 2 / 10,
      ''Smart fallback: Selected '' @ q @ name account @ q
        @ '' (avoided obviously unrelated accounts). Available accounts: ''
        @ available filtered_accounts)"

fun avoid_loop :: "account list \<Rightarrow> account list \<Rightarrow> match_result option" where
  "avoid_loop filtered_accounts [] = None"
| "avoid_loop filtered_accounts (account # rest) =
     (if \<not> (\<exists>avoid_term \<in> set avoid_terms. contains avoid_term (lower (name account)))
      then Some (smart_result account filtered_accounts)
      else avoid_loop filtered_accounts rest)"

text \<open>The warning sign of line 664, as the bytes of the source file.\<close>

definition warning_sign :: string where
  "warning_sign = [CHR 0xE2, CHR 0x80, CHR 0x9A, CHR 0xC3, CHR 0xB6, CHR 0xE2, CHR 0x80, CHR 0xA0,
                   CHR 0xC3, CHR 0x94, CHR 0xE2, CHR 0x88, CHR 0x8F, CHR 0xC3, CHR 0xA8]"

definition default_result :: "string \<Rightarrow> string \<Rightarrow> account \<Rightarrow> account list \<Rightarrow> match_result" where
  "default_result user_category account_type first_account filtered_accounts =
     (Some (acc_id first_account), Some (name first_account), 1 / 10,
      ''No good match for '' @ q @ user_category @ q @ ''. Using default: '' @ q
        @ name first_account @ q @ ''. Available accounts: '' @ available filtered_accounts
        @ (if length filtered_accounts = 1
           then ''. '' @ warning_sign @ '' WARNING: Only one '' @ lower account_type
                  @ '' account found - this suggests account filtering issues. Use ''
                  @ q @ ''debug_accounts'' @ q @ '' tool to investigate.''
           else []))"

text \<open>Lines 628-666: the keyword scan, the scan that avoids unrelated accounts, and the
  first account.\<close>

definition fallback ::
  "synonym_table \<Rightarrow> string \<Rightarrow> string \<Rightarrow> string \<Rightarrow> account list \<Rightarrow> py_error + match_result" where
  "fallback synonyms user_category user_category_lower account_type filtered_accounts =
     (let relevant = relevant_keywords user_category_lower synonyms in
      case (if relevant \<noteq> []
            then keyword_loop user_category relevant filtered_accounts filtered_accounts
            else None) of
        Some r \<Rightarrow> Inr r
      | None \<Rightarrow>
          (case (if user_category_lower \<in> set [''rent'', ''rental'', ''property'']
                    \<and> length filtered_accounts > 1
                 then avoid_loop filtered_accounts filtered_accounts
                 else None) of
             Some r \<Rightarrow> Inr r
           | None \<Rightarrow>
               (case first_elem filtered_accounts of
                  Inl e \<Rightarrow> Inl e
                | Inr first_account \<Rightarrow>
                    Inr (default_result user_category account_type first_account
                           filtered_accounts))))"

definition stage3 ::
  "synonym_table \<Rightarrow> string \<Rightarrow> string \<Rightarrow> string \<Rightarrow> account list \<Rightarrow> best
     \<Rightarrow> py_error + match_result" where
  "stage3 synonyms user_category user_category_lower account_type filtered_accounts b =
     (if filtered_accounts \<noteq> [] then
        (case b of
           (Some best_match, best_score, best_explanation) \<Rightarrow>
             if best_score > 3 / 10
             then Inr (low_confidence_result best_match best_score best_explanation filtered_accounts)
             else fallback synonyms user_category user_category_lower account_type filtered_accounts
         | (None, best_score, best_explanation) \<Rightarrow>
             fallback synonyms user_category user_category_lower account_type filtered_accounts)
      else Inr (None, None, 0, ''No '' @ lower account_type @ '' accounts available''))"

subsection \<open>The engine (lines 445-668)\<close>

text \<open>The message of lines 505-508.\<close>

definition error_msg :: "string \<Rightarrow> string" where
  "error_msg account_type =
     ''No '' @ lower account_type @ '' accounts found.''
       @ (if account_type = ''Income''
          then '' This might explain the rental income matching issue. ''
                 @ ''Try using the '' @ q @ ''debug_accounts'' @ q
                 @ '' tool to see all account types and identify your rental income accounts.''
          else [])"

definition select_synonyms :: "string \<Rightarrow> synonym_table" where
  "select_synonyms account_type =
     (if account_type = ''Expenses'' then EXPENSE_SYNONYMS else INCOME_SYNONYMS)"

text \<open>The stages on a filtered list that is not empty (lines 511-668).\<close>

definition match_pipeline ::
  "pylib \<Rightarrow> string \<Rightarrow> account list \<Rightarrow> string \<Rightarrow> string option \<Rightarrow> py_error + match_result" where
  "match_pipeline L user_category filtered_accounts account_type user_context =
     (let user_category_lower = strip (lower user_category);
          synonyms = select_synonyms account_type;
          numbers = apartment_numbers L user_category user_context
      in case stage0 numbers account_type filtered_accounts of
           Some r \<Rightarrow> Inr r
         | None \<Rightarrow>
             (case stage1 user_category user_category_lower filtered_accounts of
                Inl e \<Rightarrow> Inl e
              | Inr (Some r) \<Rightarrow> Inr r
              | Inr None \<Rightarrow>
                  (let b = stage2 L synonyms user_category user_category_lower filtered_accounts
                   in case b of
                        (Some best_match, best_score, best_explanation) \<Rightarrow>
                          if best_score \<ge> 6 / 10
                          then Inr (Some (acc_id best_match), Some (name best_match),
                                    best_score, best_explanation)
                          else stage3 synonyms user_category user_category_lower account_type
                                 filtered_accounts b
                      | (None, best_score, best_explanation) \<Rightarrow>
                          stage3 synonyms user_category user_category_lower account_type
                            filtered_accounts b)))"

definition find_best_account_match ::
  "pylib \<Rightarrow> string \<Rightarrow> account list \<Rightarrow> string \<Rightarrow> string option \<Rightarrow> py_error + match_result" where
  "find_best_account_match L user_category accounts account_type user_context =
     (if user_category = [] then Inr (None, None, 0, ''No category provided'')
      else (let filtered_accounts = filter_accounts accounts account_type in
            if filtered_accounts = [] then Inr (None, None, 0, error_msg account_type)
            else match_pipeline L user_category filtered_accounts account_type user_context))"

text \<open>The components of a result.\<close>

definition account_id_of :: "match_result \<Rightarrow> string option" where
  "account_id_of r = fst r"

definition account_name_of :: "match_result \<Rightarrow> string option" where
  "account_name_of r = fst (snd r)"

definition score_of :: "match_result \<Rightarrow> rat" where
  "score_of r = fst (snd (snd r))"

definition explanation_of :: "match_result \<Rightarrow> string" where
  "explanation_of r = snd (snd (snd r))"

subsection \<open>A library instance for concrete inputs\<close>

text \<open>
  The values of the three library operations on the texts of the examples below: the
  ratios that \<^verbatim>\<open>SequenceMatcher\<close> gives there (and 0 on other texts), their formats,
  and a set iterated in the order of first insertion.
\<close>

definition sample_ratios :: "((string \<times> string) \<times> rat) list" where
  "sample_ratios =
     [((''stamps'', ''postage fees''), 4 / 9),
      ((''stamps'', ''postage''), 6 / 13),
      ((''stamps'', ''fees''), 1 / 5),
      ((''travl'', ''travel''), 10 / 11),
      ((''xyz-unmatched'', ''consulting revenue''), 6 / 31),
      ((''xyz-unmatched'', ''consulting''), 4 / 23),
      ((''xyz-unmatched'', ''revenue''), 1 / 5)]"

definition sample_formats :: "(rat \<times> string) list" where
  "sample_formats =
     [(4 / 9, ''0.44''), (6 / 13, ''0.46''), (1 / 5, ''0.20''), (10 / 11, ''0.91''),
      (6 / 31, ''0.19''), (4 / 23, ''0.17'')]"

definition sample_lib :: pylib where
  "sample_lib =
     \<lparr> ratio = (\<lambda>a b. case map_of sample_ratios (a, b) of None \<Rightarrow> 0 | Some x \<Rightarrow> x),
       fmt2f = (\<lambda>x. case map_of sample_formats x of None \<Rightarrow> ''0.00'' | Some t \<Rightarrow> t),
       set_order = remdups \<rparr>"

definition mk_account :: "string \<Rightarrow> string \<Rightarrow> string \<Rightarrow> bool \<Rightarrow> account" where
  "mk_account i n t a =
     \<lparr> acc_id = i, name = n, type_name = t, subtype_name = None, isArchived = a \<rparr>"

text \<open>The accounts of the examples below.\<close>

definition acc_sales :: account where
  "acc_sales = mk_account ''a1'' ''Sales'' ''Income'' False"

definition acc_rental_144 :: account where
  "acc_rental_144 = mk_account ''a1'' ''Rental 144'' ''Income'' False"

definition acc_meals :: account where
  "acc_meals = mk_account ''a1'' ''Meals & Entertainment'' ''Expenses'' False"

definition acc_postage :: account where
  "acc_postage = mk_account ''a1'' ''Postage Fees'' ''Expenses'' False"

definition acc_utilities :: account where
  "acc_utilities = mk_account ''a1'' ''Utilities'' ''Expenses'' False"

definition acc_rent :: account where
  "acc_rent = mk_account ''a2'' ''Rent'' ''Expenses'' False"

definition acc_re_insurance :: account where
  "acc_re_insurance = mk_account ''a1'' ''Re Insurance'' ''Expenses'' False"

definition acc_unnamed :: account where
  "acc_unnamed = mk_account ''a1'' [] ''Expenses'' False"

definition acc_lowercase_type :: account where
  "acc_lowercase_type = mk_account ''a1'' ''Sales'' ''income'' False"

definition acc_archived :: account where
  "acc_archived = mk_account ''a2'' ''Old sales'' ''Income'' True"

subsection \<open>Notions for the statements\<close>

definition best_score_of :: "best \<Rightarrow> rat" where
  "best_score_of b = fst (snd b)"

text \<open>A result that names an account of \<open>F\<close>, with its name, a text and a score of at
  least the lowest fallback tier.\<close>

definition good_result :: "account list \<Rightarrow> match_result \<Rightarrow> bool" where
  "good_result F r =
     ((\<exists>a \<in> set F. account_id_of r = Some (acc_id a) \<and> account_name_of r = Some (name a))
      \<and> explanation_of r \<noteq> [] \<and> 1 / 10 \<le> score_of r)"

text \<open>The invariant of the running best of Stage 2: without a best match the score is
  still 0; a best match is one of the filtered accounts, its score is positive and its
  explanation is one of the three kinds Stage 2 writes.\<close>

definition stage2_inv :: "account list \<Rightarrow> best \<Rightarrow> bool" where
  "stage2_inv F b =
     (case b of
        (None, s, e) \<Rightarrow> s = 0
      | (Some a, s, e) \<Rightarrow> a \<in> set F \<and> 0 < s \<and> take 2 e \<in> set [''Di'', ''Wo'', ''Sy''])"

text \<open>The results of the fallback tiers of Stage 3, told by the start of their text.\<close>

definition fallback_ok :: "account list \<Rightarrow> match_result \<Rightarrow> bool" where
  "fallback_ok F r = (good_result F r \<and> take 2 (explanation_of r) \<in> set [''Fa'', ''Sm'', ''No''])"

text \<open>
  The candidate scores of Stage 2 in the words of the specification (section 4.3), to
  compare the loop of the source with: for one account, the similarity of the label and
  the whole name, the similarity of the label and each word of the name, and, for each
  entry of the synonym table that the label is the key or a synonym of, 0.90 when the
  key occurs in the name, 0.85 for each synonym that occurs in it (indirect match) and
  0.88 for the key and each synonym that occurs in it (bidirectional match).
\<close>

definition spec_synonym_scores :: "string \<Rightarrow> string \<Rightarrow> string \<times> string list \<Rightarrow> rat list" where
  "spec_synonym_scores label account_name entry =
     (if label = fst entry \<or> label \<in> set (snd entry)
      then (if contains (fst entry) account_name then [9 / 10] else [])
           @ map (\<lambda>s. 85 / 100) (filter (\<lambda>s. contains s account_name) (snd entry))
           @ map (\<lambda>s. 88 / 100) (filter (\<lambda>s. contains s account_name) (fst entry # snd entry))
      else [])"

definition spec_account_scores :: "pylib \<Rightarrow> synonym_table \<Rightarrow> string \<Rightarrow> account \<Rightarrow> rat list" where
  "spec_account_scores L table label a =
     ratio L label (lower (name a)) # map (ratio L label) (split (lower (name a)))
       @ concat (map (spec_synonym_scores label (lower (name a))) table)"

definition spec_stage2_scores :: "pylib \<Rightarrow> synonym_table \<Rightarrow> string \<Rightarrow> account list \<Rightarrow> rat list" where
  "spec_stage2_scores L table label F = concat (map (spec_account_scores L table label) F)"

section \<open>Properties\<close>

subsection \<open>Facts about strings\<close>

lemma contains_sublist: "contains sub s \<longleftrightarrow> sublist sub s"
  by (induction s) (simp_all add: sublist_Cons_right)

lemma contains_Nil [simp]: "contains [] s"
  by (simp add: contains_sublist)

lemma contains_refl [simp]: "contains s s"
  by (simp add: contains_sublist)

lemma sublist_strip: "sublist (strip s) s"
proof -
  have "suffix (dropWhile is_space (rev (dropWhile is_space s))) (rev (dropWhile is_space s))"
    by (rule suffix_dropWhile)
  then have "prefix (strip s) (dropWhile is_space s)"
    by (simp add: suffix_to_prefix strip_def)
  then have 1: "sublist (strip s) (dropWhile is_space s)" by (rule prefix_imp_sublist)
  have 2: "sublist (dropWhile is_space s) s"
    by (rule suffix_imp_sublist) (rule suffix_dropWhile)
  from 1 2 show ?thesis by (rule sublist_order.order.trans)
qed

lemma contains_strip: "contains (strip s) s"
  by (simp add: contains_sublist sublist_strip)

lemma strip_Nil [simp]: "strip [] = []"
  by (simp add: strip_def)

lemma lower_Nil [simp]: "lower [] = []"
  by (simp add: lower_def)

subsection \<open>The filter\<close>

lemma filter_accounts_cases:
  "filter_accounts accounts t =
     (if strategy1 accounts t \<noteq> [] then strategy1 accounts t
      else if strategy2 accounts t \<noteq> [] then strategy2 accounts t
      else if t \<noteq> ''Income'' then []
      else if strategy3 accounts \<noteq> [] then strategy3 accounts
      else strategy4 accounts)"
  by (simp add: filter_accounts_def Let_def)

lemma strategies_sound:
  "a \<in> set (strategy1 accounts t) \<Longrightarrow> a \<in> set accounts \<and> \<not> isArchived a"
  "a \<in> set (strategy2 accounts t) \<Longrightarrow> a \<in> set accounts \<and> \<not> isArchived a"
  "a \<in> set (strategy3 accounts) \<Longrightarrow> a \<in> set accounts \<and> \<not> isArchived a"
  "a \<in> set (strategy4 accounts) \<Longrightarrow> a \<in> set accounts \<and> \<not> isArchived a"
  by (simp_all add: strategy1_def strategy2_def strategy3_def strategy4_def)

lemma filter_accounts_sound:
  "a \<in> set (filter_accounts accounts t) \<Longrightarrow> a \<in> set accounts \<and> \<not> isArchived a"
  unfolding filter_accounts_cases
  by (auto split: if_splits dest: strategies_sound)

subsection \<open>The extractor\<close>

lemma fold_append_acc:
  "fold (\<lambda>p acc. acc @ f p) ps acc0 = acc0 @ concat (map f ps)"
  by (induction ps arbitrary: acc0) simp_all

lemma pattern_matches_concat:
  "pattern_matches ps s = concat (map (\<lambda>p. findall p (lower s)) ps)"
  by (simp add: pattern_matches_def fold_append_acc)

subsection \<open>Stage 0\<close>

lemma stage0_scan_Some:
  "stage0_scan n F = Some r \<Longrightarrow>
     \<exists>pre a post. F = pre @ a # post \<and> (\<forall>b \<in> set pre. \<not> rental_hit n b) \<and> rental_hit n a
        \<and> r = stage0_result n a"
proof (induction F)
  case Nil
  then show ?case by simp
next
  case (Cons b F)
  show ?case
  proof (cases "rental_hit n b")
    case True
    with Cons.prems have "r = stage0_result n b" by simp
    with True have "b # F = [] @ b # F \<and> (\<forall>x \<in> set []. \<not> rental_hit n x) \<and> rental_hit n b
        \<and> r = stage0_result n b" by simp
    then show ?thesis by blast
  next
    case False
    with Cons.prems have "stage0_scan n F = Some r" by simp
    from Cons.IH [OF this] obtain pre a post where
      h: "F = pre @ a # post" "\<forall>x \<in> set pre. \<not> rental_hit n x" "rental_hit n a" "r = stage0_result n a"
      by blast
    with False have "b # F = (b # pre) @ a # post \<and> (\<forall>x \<in> set (b # pre). \<not> rental_hit n x)
        \<and> rental_hit n a \<and> r = stage0_result n a" by simp
    then show ?thesis by blast
  qed
qed

lemma stage0_scan_None: "stage0_scan n F = None \<longleftrightarrow> (\<forall>a \<in> set F. \<not> rental_hit n a)"
  by (induction F) simp_all

lemma stage0_loop_None:
  "stage0_loop ns F = None \<longleftrightarrow> (\<forall>n \<in> set ns. \<forall>a \<in> set F. \<not> rental_hit n a)"
proof (induction ns)
  case Nil
  show ?case by simp
next
  case (Cons m ns)
  show ?case
    using Cons stage0_scan_None [of m F] by (cases "stage0_scan m F") auto
qed

lemma stage0_loop_Some:
  "stage0_loop ns F = Some r \<Longrightarrow>
     \<exists>ns1 n ns2 pre a post. ns = ns1 @ n # ns2
        \<and> (\<forall>m \<in> set ns1. \<forall>b \<in> set F. \<not> rental_hit m b)
        \<and> F = pre @ a # post \<and> (\<forall>b \<in> set pre. \<not> rental_hit n b) \<and> rental_hit n a
        \<and> r = stage0_result n a"
proof (induction ns)
  case Nil
  then show ?case by simp
next
  case (Cons m ns)
  show ?case
  proof (cases "stage0_scan m F")
    case (Some r')
    with Cons.prems have "r' = r" by simp
    with Some stage0_scan_Some obtain pre a post where
      h: "F = pre @ a # post" "\<forall>b \<in> set pre. \<not> rental_hit m b" "rental_hit m a" "r = stage0_result m a"
      by blast
    then have "m # ns = [] @ m # ns \<and> (\<forall>k \<in> set []. \<forall>b \<in> set F. \<not> rental_hit k b)
        \<and> F = pre @ a # post \<and> (\<forall>b \<in> set pre. \<not> rental_hit m b) \<and> rental_hit m a
        \<and> r = stage0_result m a" by simp
    then show ?thesis by blast
  next
    case None
    with Cons.prems have "stage0_loop ns F = Some r" by simp
    from Cons.IH [OF this] obtain ns1 n ns2 pre a post where
      h: "ns = ns1 @ n # ns2" "\<forall>k \<in> set ns1. \<forall>b \<in> set F. \<not> rental_hit k b"
         "F = pre @ a # post" "\<forall>b \<in> set pre. \<not> rental_hit n b" "rental_hit n a"
         "r = stage0_result n a" by blast
    from None have "\<forall>b \<in> set F. \<not> rental_hit m b" by (simp add: stage0_scan_None)
    with h have "m # ns = (m # ns1) @ n # ns2 \<and> (\<forall>k \<in> set (m # ns1). \<forall>b \<in> set F. \<not> rental_hit k b)
        \<and> F = pre @ a # post \<and> (\<forall>b \<in> set pre. \<not> rental_hit n b) \<and> rental_hit n a
        \<and> r = stage0_result n a" by simp
    then show ?thesis by blast
  qed
qed

lemma stage0_result_good: "a \<in> set F \<Longrightarrow> good_result F (stage0_result n a)"
  by (auto simp: good_result_def stage0_result_def account_id_of_def account_name_of_def
      explanation_of_def score_of_def)

lemma stage0_good: "stage0 ns t F = Some r \<Longrightarrow> good_result F r"
  by (auto simp: stage0_def split: if_splits dest!: stage0_loop_Some intro!: stage0_result_good)

subsection \<open>Stage 1\<close>

lemma first_elem_Cons [simp]: "first_elem (x # xs) = Inr x"
  by (simp add: first_elem_def)

lemma first_elem_nonempty: "xs \<noteq> [] \<Longrightarrow> first_elem xs = Inr (hd xs)"
  by (cases xs) simp_all

lemma stage1_total: "\<exists>r. stage1 c u F = Inr r"
  by (induction F) (auto simp: Let_def first_elem_nonempty)

lemma stage1_results_good:
  "a \<in> set F \<Longrightarrow> good_result F (exact_result c a)"
  "a \<in> set F \<Longrightarrow> good_result F (prefix_result c a)"
  "a \<in> set F \<Longrightarrow> good_result F (category_prefix_result c w a)"
  by (auto simp: good_result_def exact_result_def prefix_result_def category_prefix_result_def
      account_id_of_def account_name_of_def explanation_of_def score_of_def)

lemma stage1_Some:
  "stage1 c u F = Inr (Some r) \<Longrightarrow>
     \<exists>a \<in> set F. r = exact_result c a \<or> r = prefix_result c a
        \<or> (\<exists>w. r = category_prefix_result c w a)"
  by (induction F) (auto simp: Let_def first_elem_nonempty split: if_splits)

lemma stage1_good: "stage1 c u F = Inr (Some r) \<Longrightarrow> good_result F r"
  by (auto dest!: stage1_Some intro: stage1_results_good)

lemma stage1_append:
  "stage1 c u pre = Inr None \<Longrightarrow> stage1 c u (pre @ rest) = stage1 c u rest"
  by (induction pre) (auto simp: Let_def first_elem_nonempty split: if_splits)

lemma stage1_empty_label: "stage1 c [] F = Inr None \<Longrightarrow> F = []"
  by (cases F) (auto simp: Let_def)

subsection \<open>Stage 2: the best score is the greatest candidate\<close>

lemma bs_update: "best_score_of (update_best a s e b) = max (best_score_of b) s"
  by (simp add: best_score_of_def update_best_def max_def)

lemma bs_direct:
  "best_score_of (direct_step L u a b) = max (best_score_of b) (ratio L u (lower (name a)))"
  by (simp add: direct_step_def Let_def bs_update)

lemma bs_words:
  "best_score_of (fold (word_step L c u a) ws b) = fold max (map (ratio L u) ws) (best_score_of b)"
  by (induction ws arbitrary: b) (simp_all add: word_step_def Let_def bs_update max.commute)

lemma bs_key:
  "best_score_of (key_step c a k b) =
     fold max (if contains k (lower (name a)) then [9 / 10] else []) (best_score_of b)"
  by (simp add: key_step_def bs_update max.commute)

lemma bs_indirect:
  "best_score_of (fold (indirect_step c a) syns b) =
     fold max (map (\<lambda>s. 85 / 100) (filter (\<lambda>s. contains s (lower (name a))) syns)) (best_score_of b)"
  by (induction syns arbitrary: b) (simp_all add: indirect_step_def bs_update max.commute)

lemma bs_bidirectional:
  "best_score_of (fold (bidirectional_step c a) syns b) =
     fold max (map (\<lambda>s. 88 / 100) (filter (\<lambda>s. contains s (lower (name a))) syns)) (best_score_of b)"
  by (induction syns arbitrary: b) (simp_all add: bidirectional_step_def bs_update max.commute)

lemma bs_synonym_step:
  "best_score_of (synonym_step c u a entry b) =
     fold max (spec_synonym_scores u (lower (name a)) entry) (best_score_of b)"
proof (cases "u = fst entry \<or> u \<in> set (snd entry)")
  case True
  then have m: "u \<in> set (fst entry # snd entry)" by auto
  have "synonym_step c u a entry b =
      fold (bidirectional_step c a) (fst entry # snd entry)
        (fold (indirect_step c a) (snd entry) (key_step c a (fst entry) b))"
    using True m unfolding synonym_step_def Let_def by (simp only: if_True)
  then show ?thesis
    using True by (simp only: bs_bidirectional bs_indirect bs_key spec_synonym_scores_def
        if_True fold_append comp_apply)
next
  case False
  then have m: "u \<notin> set (fst entry # snd entry)" by auto
  have "synonym_step c u a entry b = b"
    using False m unfolding synonym_step_def Let_def by (simp only: if_False)
  then show ?thesis using False by (simp add: spec_synonym_scores_def)
qed

lemma bs_synonyms:
  "best_score_of (fold (synonym_step c u a) table b) =
     fold max (concat (map (spec_synonym_scores u (lower (name a))) table)) (best_score_of b)"
  by (induction table arbitrary: b) (simp_all add: bs_synonym_step)

lemma bs_account_step:
  "best_score_of (account_step L table c u a b) =
     fold max (spec_account_scores L table u a) (best_score_of b)"
  by (simp add: account_step_def bs_synonyms bs_words bs_direct spec_account_scores_def
      max.commute)

lemma bs_accounts:
  "best_score_of (fold (account_step L table c u) F b) =
     fold max (spec_stage2_scores L table u F) (best_score_of b)"
  by (induction F arbitrary: b) (simp_all add: bs_account_step spec_stage2_scores_def)

lemma bs_stage2:
  "best_score_of (stage2 L table c u F) = Max (set (0 # spec_stage2_scores L table u F))"
  by (simp only: stage2_def bs_accounts Max.set_eq_fold) (simp add: best_score_of_def)

subsection \<open>Stage 2: the invariant\<close>

lemma inv_update:
  "stage2_inv F b \<Longrightarrow> a \<in> set F \<Longrightarrow> take 2 e \<in> set [''Di'', ''Wo'', ''Sy'']
     \<Longrightarrow> stage2_inv F (update_best a s e b)"
  by (cases b; cases "fst b") (auto simp: stage2_inv_def update_best_def)

lemma inv_direct: "stage2_inv F b \<Longrightarrow> a \<in> set F \<Longrightarrow> stage2_inv F (direct_step L u a b)"
  by (simp add: direct_step_def Let_def inv_update)

lemma inv_word: "stage2_inv F b \<Longrightarrow> a \<in> set F \<Longrightarrow> stage2_inv F (word_step L c u a w b)"
  by (simp add: word_step_def Let_def inv_update)

lemma inv_words:
  "stage2_inv F b \<Longrightarrow> a \<in> set F \<Longrightarrow> stage2_inv F (fold (word_step L c u a) ws b)"
  by (induction ws arbitrary: b) (simp_all add: inv_word)

lemma inv_key: "stage2_inv F b \<Longrightarrow> a \<in> set F \<Longrightarrow> stage2_inv F (key_step c a k b)"
  by (simp add: key_step_def inv_update)

lemma inv_indirect: "stage2_inv F b \<Longrightarrow> a \<in> set F \<Longrightarrow> stage2_inv F (indirect_step c a k b)"
  by (simp add: indirect_step_def inv_update)

lemma inv_bidirectional:
  "stage2_inv F b \<Longrightarrow> a \<in> set F \<Longrightarrow> stage2_inv F (bidirectional_step c a k b)"
  by (simp add: bidirectional_step_def inv_update)

lemma inv_indirects:
  "stage2_inv F b \<Longrightarrow> a \<in> set F \<Longrightarrow> stage2_inv F (fold (indirect_step c a) ks b)"
  by (induction ks arbitrary: b) (simp_all add: inv_indirect)

lemma inv_bidirectionals:
  "stage2_inv F b \<Longrightarrow> a \<in> set F \<Longrightarrow> stage2_inv F (fold (bidirectional_step c a) ks b)"
  by (induction ks arbitrary: b) (simp_all add: inv_bidirectional)

lemma inv_synonym_step:
  "stage2_inv F b \<Longrightarrow> a \<in> set F \<Longrightarrow> stage2_inv F (synonym_step c u a entry b)"
  unfolding synonym_step_def Let_def
  by (intro conjI impI inv_bidirectionals inv_indirects inv_key | simp only: split: if_split)+

lemma inv_synonyms:
  "stage2_inv F b \<Longrightarrow> a \<in> set F \<Longrightarrow> stage2_inv F (fold (synonym_step c u a) table b)"
  by (induction table arbitrary: b) (simp_all add: inv_synonym_step)

lemma inv_account_step:
  "stage2_inv F b \<Longrightarrow> a \<in> set F \<Longrightarrow> stage2_inv F (account_step L table c u a b)"
  by (simp add: account_step_def inv_synonyms inv_words inv_direct)

lemma inv_accounts:
  "stage2_inv F b \<Longrightarrow> set G \<subseteq> set F \<Longrightarrow> stage2_inv F (fold (account_step L table c u) G b)"
  by (induction G arbitrary: b) (simp_all add: inv_account_step)

lemma inv_stage2: "stage2_inv F (stage2 L table c u F)"
  unfolding stage2_def by (rule inv_accounts) (simp_all add: stage2_inv_def)

subsection \<open>Stage 3\<close>

lemma keyword_loop_Some:
  "keyword_loop c ks F G = Some r \<Longrightarrow> \<exists>a \<in> set G. \<exists>k. r = keyword_result c k a F"
  by (induction G) (auto split: option.splits)

lemma avoid_loop_Some:
  "avoid_loop F G = Some r \<Longrightarrow> \<exists>a \<in> set G. r = smart_result a F"
  by (induction G) (auto split: if_splits)

lemma fallback_results_ok:
  "a \<in> set F \<Longrightarrow> fallback_ok F (keyword_result c k a F)"
  "a \<in> set F \<Longrightarrow> fallback_ok F (smart_result a F)"
  "a \<in> set F \<Longrightarrow> fallback_ok F (default_result c t a F)"
  by (auto simp: fallback_ok_def good_result_def keyword_result_def smart_result_def
      default_result_def account_id_of_def account_name_of_def explanation_of_def score_of_def)

lemma fallback_total:
  assumes "F \<noteq> []"
  shows "\<exists>r. fallback syn c u t F = Inr r \<and> fallback_ok F r"
proof -
  let ?k = "if relevant_keywords u syn \<noteq> [] then keyword_loop c (relevant_keywords u syn) F F
            else None"
  let ?v = "if u \<in> set [''rent'', ''rental'', ''property''] \<and> length F > 1
            then avoid_loop F F else None"
  show ?thesis
  proof (cases ?k)
    case (Some r)
    then have "keyword_loop c (relevant_keywords u syn) F F = Some r"
      by (simp split: if_splits)
    then obtain a k where "a \<in> set F" "r = keyword_result c k a F"
      using keyword_loop_Some by blast
    then have "fallback_ok F r" by (simp add: fallback_results_ok)
    moreover have "fallback syn c u t F = Inr r"
      using Some by (simp add: fallback_def Let_def)
    ultimately show ?thesis by blast
  next
    case None
    note k = None
    show ?thesis
    proof (cases ?v)
      case (Some r)
      then have "avoid_loop F F = Some r" by (simp split: if_splits)
      then obtain a where "a \<in> set F" "r = smart_result a F"
        using avoid_loop_Some by blast
      then have "fallback_ok F r" by (simp add: fallback_results_ok)
      moreover have "fallback syn c u t F = Inr r"
        using k Some by (simp add: fallback_def Let_def)
      ultimately show ?thesis by blast
    next
      case None
      have "fallback syn c u t F = Inr (default_result c t (hd F) F)"
        using k None assms by (simp add: fallback_def Let_def first_elem_nonempty)
      moreover have "fallback_ok F (default_result c t (hd F) F)"
        using assms by (simp add: fallback_results_ok)
      ultimately show ?thesis by blast
    qed
  qed
qed

lemma low_confidence_good:
  "a \<in> set F \<Longrightarrow> 3 / 10 < s \<Longrightarrow> good_result F (low_confidence_result a s e F)"
  by (auto simp: good_result_def low_confidence_result_def account_id_of_def account_name_of_def
      explanation_of_def score_of_def)

lemma stage3_total:
  assumes "stage2_inv F b" and "F \<noteq> []"
  shows "\<exists>r. stage3 syn c u t F b = Inr r \<and> good_result F r"
proof -
  obtain bm s e where b: "b = (bm, s, e)" by (cases b) auto
  from fallback_total [OF assms(2)] obtain r where
    r0: "fallback syn c u t F = Inr r \<and> fallback_ok F r" by blast
  then have r: "fallback syn c u t F = Inr r" "good_result F r"
    by (simp_all add: fallback_ok_def)
  show ?thesis
  proof (cases bm)
    case None
    then show ?thesis using b r assms(2) by (simp add: stage3_def)
  next
    case (Some a)
    with assms(1) b have a: "a \<in> set F" by (simp add: stage2_inv_def)
    show ?thesis
    proof (cases "3 / 10 < s")
      case True
      then show ?thesis
        using b Some a assms(2) by (simp add: stage3_def low_confidence_good)
    next
      case False
      then show ?thesis using b Some r assms(2) by (simp add: stage3_def)
    qed
  qed
qed

subsection \<open>The stages together\<close>

lemma accepted_good:
  "a \<in> set F \<Longrightarrow> 6 / 10 \<le> s \<Longrightarrow> take 2 e \<in> set [''Di'', ''Wo'', ''Sy'']
     \<Longrightarrow> good_result F (Some (acc_id a), Some (name a), s, e)"
  by (auto simp: good_result_def account_id_of_def account_name_of_def
      explanation_of_def score_of_def)

lemma pipeline_total:
  assumes "F \<noteq> []"
  shows "\<exists>r. match_pipeline L c F t x = Inr r \<and> good_result F r"
proof (cases "stage0 (apartment_numbers L c x) t F")
  case (Some r)
  then show ?thesis by (simp add: match_pipeline_def Let_def stage0_good)
next
  case None
  note s0 = None
  obtain r1 where s1: "stage1 c (strip (lower c)) F = Inr r1"
    using stage1_total by blast
  show ?thesis
  proof (cases r1)
    case (Some r)
    with s0 s1 show ?thesis by (simp add: match_pipeline_def Let_def stage1_good)
  next
    case None
    note r1 = None
    let ?b = "stage2 L (select_synonyms t) c (strip (lower c)) F"
    obtain bm s e where b: "?b = (bm, s, e)" by (cases ?b) auto
    have inv: "stage2_inv F ?b" by (rule inv_stage2)
    from stage3_total [OF inv assms] obtain r3 where
      r3: "stage3 (select_synonyms t) c (strip (lower c)) t F ?b = Inr r3" "good_result F r3"
      by blast
    show ?thesis
    proof (cases bm)
      case None
      with s0 s1 r1 b r3 show ?thesis by (simp add: match_pipeline_def Let_def)
    next
      case (Some a)
      with inv b have a: "a \<in> set F" "take 2 e \<in> set [''Di'', ''Wo'', ''Sy'']"
        by (simp_all add: stage2_inv_def)
      show ?thesis
      proof (cases "6 / 10 \<le> s")
        case True
        then have "good_result F (Some (acc_id a), Some (name a), s, e)"
          using a by (simp add: accepted_good)
        then show ?thesis
          using s0 s1 r1 b Some True by (simp add: match_pipeline_def Let_def)
      next
        case False
        then show ?thesis
          using s0 s1 r1 b Some r3 by (simp add: match_pipeline_def Let_def)
      qed
    qed
  qed
qed

lemma engine_pipeline:
  "c \<noteq> [] \<Longrightarrow> filter_accounts accounts t \<noteq> [] \<Longrightarrow>
     find_best_account_match L c accounts t x
       = match_pipeline L c (filter_accounts accounts t) t x"
  by (simp add: find_best_account_match_def Let_def)

lemma engine_good:
  assumes "c \<noteq> []" and "filter_accounts accounts t \<noteq> []"
  shows "\<exists>r. find_best_account_match L c accounts t x = Inr r
        \<and> good_result (filter_accounts accounts t) r"
  unfolding engine_pipeline [OF assms] by (rule pipeline_total [OF assms(2)])

lemma error_msg_nonempty: "error_msg t \<noteq> []"
  by (simp add: error_msg_def)

lemma stage2_Nil: "stage2 L syn c u [] = (None, 0, [])"
  by (simp add: stage2_def)

lemma fold_max_ge: "x \<in> set (s # xs) \<Longrightarrow> x \<le> Max (set (s # xs))"
  by (rule Max_ge) simp_all

section \<open>The claims\<close>

text \<open>
  In the statements \<open>c\<close> is the category label, \<open>x\<close> the context text, \<open>t\<close> the
  account class as the callers write it (\<open>''Expenses''\<close> or \<open>''Income''\<close>) and \<open>L\<close> the
  library. The filtered list is \<open>filter_accounts accounts t\<close> and the lower-cased label
  is \<open>strip (lower c)\<close>.
\<close>

subsection \<open>C1\<close>

text \<open>
  Claim C1, as amended. For an Income query with a label that is not empty: when one of
  the extracted numeric tokens occurs in the name of a filtered account that also
  contains the word "rental", the engine returns from Stage 0, with score 0.98, the
  first such account: the first token in the order of extraction that has an account,
  and for it the first account in input order. Nothing is asked of Stage 1, so this
  holds also when a filtered account contains the label and Stage 1 would give 1.0.
\<close>

theorem stage0_short_circuits:
  assumes "c \<noteq> []"
    and "n \<in> set (apartment_numbers L c x)"
    and "a \<in> set (filter_accounts accounts ''Income'')"
    and "rental_hit n a"
  shows "\<exists>ns1 n' ns2 pre a' post.
           apartment_numbers L c x = ns1 @ n' # ns2
           \<and> (\<forall>m \<in> set ns1. \<forall>b \<in> set (filter_accounts accounts ''Income''). \<not> rental_hit m b)
           \<and> filter_accounts accounts ''Income'' = pre @ a' # post
           \<and> (\<forall>b \<in> set pre. \<not> rental_hit n' b)
           \<and> rental_hit n' a'
           \<and> find_best_account_match L c accounts ''Income'' x
               = Inr (Some (acc_id a'), Some (name a'), 98 / 100,
                      ''Apartment-specific match: Found apartment '' @ n' @ '' in ''
                        @ q @ name a' @ q)"
proof -
  let ?F = "filter_accounts accounts ''Income''"
  let ?ns = "apartment_numbers L c x"
  from assms(3) have F: "?F \<noteq> []" by auto
  from assms(2) have ns: "?ns \<noteq> []" by auto
  have "stage0_loop ?ns ?F \<noteq> None"
    using assms(2-4) by (auto simp: stage0_loop_None)
  then obtain r where r: "stage0_loop ?ns ?F = Some r" by auto
  then have "stage0 ?ns ''Income'' ?F = Some r" using ns by (simp add: stage0_def)
  then have eq: "find_best_account_match L c accounts ''Income'' x = Inr r"
    using assms(1) F by (simp add: engine_pipeline match_pipeline_def Let_def)
  from stage0_loop_Some [OF r] obtain ns1 n' ns2 pre a' post where
    h: "?ns = ns1 @ n' # ns2" "\<forall>m \<in> set ns1. \<forall>b \<in> set ?F. \<not> rental_hit m b"
       "?F = pre @ a' # post" "\<forall>b \<in> set pre. \<not> rental_hit n' b" "rental_hit n' a'"
       "r = stage0_result n' a'" by blast
  from eq h(6) have "find_best_account_match L c accounts ''Income'' x
               = Inr (Some (acc_id a'), Some (name a'), 98 / 100,
                      ''Apartment-specific match: Found apartment '' @ n' @ '' in ''
                        @ q @ name a' @ q)"
    by (simp add: stage0_result_def)
  with h(1-5) show ?thesis by blast
qed

text \<open>An instance: the label \<open>Rental 144\<close> is the name of the only account, so Stage 1 would
  return it with 1.0; the engine returns it from Stage 0 with 0.98.\<close>

theorem stage0_short_circuits_witness:
  "''Rental 144'' \<noteq> []
   \<and> ''144'' \<in> set (apartment_numbers sample_lib ''Rental 144'' None)
   \<and> acc_rental_144 \<in> set (filter_accounts [acc_rental_144] ''Income'')
   \<and> rental_hit ''144'' acc_rental_144
   \<and> stage1 ''Rental 144'' (strip (lower ''Rental 144'')) [acc_rental_144]
       = Inr (Some (exact_result ''Rental 144'' acc_rental_144))
   \<and> (\<exists>ns1 n' ns2 pre a' post.
           apartment_numbers sample_lib ''Rental 144'' None = ns1 @ n' # ns2
           \<and> (\<forall>m \<in> set ns1. \<forall>b \<in> set (filter_accounts [acc_rental_144] ''Income'').
                 \<not> rental_hit m b)
           \<and> filter_accounts [acc_rental_144] ''Income'' = pre @ a' # post
           \<and> (\<forall>b \<in> set pre. \<not> rental_hit n' b)
           \<and> rental_hit n' a'
           \<and> find_best_account_match sample_lib ''Rental 144'' [acc_rental_144] ''Income'' None
               = Inr (Some (acc_id a'), Some (name a'), 98 / 100,
                      ''Apartment-specific match: Found apartment '' @ n' @ '' in ''
                        @ q @ name a' @ q))"
proof -
  have h1: "''Rental 144'' \<noteq> []" by simp
  have h2: "''144'' \<in> set (apartment_numbers sample_lib ''Rental 144'' None)" by code_simp
  have h3: "acc_rental_144 \<in> set (filter_accounts [acc_rental_144] ''Income'')" by code_simp
  have h4: "rental_hit ''144'' acc_rental_144" by code_simp
  have h5: "stage1 ''Rental 144'' (strip (lower ''Rental 144'')) [acc_rental_144]
       = Inr (Some (exact_result ''Rental 144'' acc_rental_144))" by code_simp
  from h1 h2 h3 h4 h5 stage0_short_circuits [OF h1 h2 h3 h4]
  show ?thesis by (intro conjI)
qed

text \<open>With an empty label the engine returns before it extracts a token: the context holds the
  token 144, the account \<open>Rental 144\<close> qualifies, and no account is returned.\<close>

theorem stage0_short_circuits_counterexample:
  "''144'' \<in> set (apartment_numbers sample_lib [] (Some ''unit 144''))
   \<and> acc_rental_144 \<in> set (filter_accounts [acc_rental_144] ''Income'')
   \<and> rental_hit ''144'' acc_rental_144
   \<and> find_best_account_match sample_lib [] [acc_rental_144] ''Income'' (Some ''unit 144'')
       = Inr (None, None, 0, ''No category provided'')"
proof -
  have 1: "''144'' \<in> set (apartment_numbers sample_lib [] (Some ''unit 144''))" by code_simp
  have 2: "acc_rental_144 \<in> set (filter_accounts [acc_rental_144] ''Income'')" by code_simp
  have 3: "rental_hit ''144'' acc_rental_144" by code_simp
  have 4: "find_best_account_match sample_lib [] [acc_rental_144] ''Income'' (Some ''unit 144'')
       = Inr (None, None, 0, ''No category provided'')" by code_simp
  from 1 2 3 4 show ?thesis by (intro conjI)
qed

subsection \<open>C2\<close>

text \<open>
  Claim C2, as amended. For a label that is not empty and a filtered list that is not
  empty, the engine returns a result with an account identifier and an account name, and
  a score of at least 0.1.
\<close>

theorem nonempty_filtered_populated:
  assumes "c \<noteq> []" and "filter_accounts accounts t \<noteq> []"
  shows "\<exists>i n s e. find_best_account_match L c accounts t x = Inr (Some i, Some n, s, e)
           \<and> 1 / 10 \<le> s"
proof -
  from engine_good [OF assms] obtain r where
    r: "find_best_account_match L c accounts t x = Inr r"
       "good_result (filter_accounts accounts t) r" by blast
  obtain i n s e where p: "r = (i, n, s, e)" by (cases r) auto
  from r(2) p obtain i' n' where "i = Some i'" "n = Some n'" "1 / 10 \<le> s"
    by (auto simp: good_result_def account_id_of_def account_name_of_def score_of_def)
  with r(1) p show ?thesis by blast
qed

text \<open>An instance.\<close>

theorem nonempty_filtered_populated_witness:
  "''food'' \<noteq> [] \<and> filter_accounts [acc_meals] ''Expenses'' \<noteq> []
   \<and> (\<exists>i n s e. find_best_account_match sample_lib ''food'' [acc_meals] ''Expenses'' None
                   = Inr (Some i, Some n, s, e) \<and> 1 / 10 \<le> s)"
proof -
  have h1: "''food'' \<noteq> []" by simp
  have h2: "filter_accounts [acc_meals] ''Expenses'' \<noteq> []" by code_simp
  from h1 h2 nonempty_filtered_populated [OF h1 h2, of sample_lib None]
  show ?thesis by (intro conjI)
qed

text \<open>With an empty label the engine returns no identifier although a non-archived account of
  the requested class is among the candidates.\<close>

theorem nonempty_filtered_populated_counterexample:
  "type_name acc_sales = ''Income'' \<and> \<not> isArchived acc_sales
   \<and> filter_accounts [acc_sales] ''Income'' = [acc_sales]
   \<and> find_best_account_match sample_lib [] [acc_sales] ''Income'' None
       = Inr (None, None, 0, ''No category provided'')"
proof -
  have 1: "type_name acc_sales = ''Income''" by code_simp
  have 2: "\<not> isArchived acc_sales" by code_simp
  have 3: "filter_accounts [acc_sales] ''Income'' = [acc_sales]" by code_simp
  have 4: "find_best_account_match sample_lib [] [acc_sales] ''Income'' None
       = Inr (None, None, 0, ''No category provided'')" by code_simp
  from 1 2 3 4 show ?thesis by (intro conjI)
qed

subsection \<open>C3\<close>

text \<open>
  Claim C3, as amended. For a label that is not empty and a query on which Stage 0
  returns nothing: when the label equals the full name of a filtered account up to case,
  and no filtered account before it satisfies a rule of Stage 1, the engine returns that
  account with score 1.0.
\<close>

theorem exact_name_match:
  assumes "c \<noteq> []"
    and "filter_accounts accounts t = pre @ a # post"
    and "lower (name a) = lower c"
    and "stage0 (apartment_numbers L c x) t (filter_accounts accounts t) = None"
    and "stage1 c (strip (lower c)) pre = Inr None"
  shows "find_best_account_match L c accounts t x
           = Inr (Some (acc_id a), Some (name a), 1,
                  ''Exact substring match: '' @ q @ c @ q @ '' found in '' @ q @ name a @ q)"
proof -
  let ?F = "filter_accounts accounts t"
  from assms(2) have F: "?F \<noteq> []" by simp
  have "contains (strip (lower c)) (lower (name a))"
    using assms(3) by (simp add: contains_strip)
  then have "stage1 c (strip (lower c)) (a # post) = Inr (Some (exact_result c a))"
    by (simp add: Let_def)
  with assms(5) have "stage1 c (strip (lower c)) (pre @ a # post) = Inr (Some (exact_result c a))"
    by (simp add: stage1_append)
  with assms(2) have "stage1 c (strip (lower c)) ?F = Inr (Some (exact_result c a))" by simp
  with assms(1,4) F show ?thesis
    by (simp add: engine_pipeline match_pipeline_def Let_def exact_result_def)
qed

text \<open>An instance.\<close>

theorem exact_name_match_witness:
  "''Rent'' \<noteq> []
   \<and> filter_accounts [acc_utilities, acc_rent] ''Expenses'' = [acc_utilities] @ acc_rent # []
   \<and> lower (name acc_rent) = lower ''Rent''
   \<and> stage0 (apartment_numbers sample_lib ''Rent'' None) ''Expenses''
        (filter_accounts [acc_utilities, acc_rent] ''Expenses'') = None
   \<and> stage1 ''Rent'' (strip (lower ''Rent'')) [acc_utilities] = Inr None
   \<and> find_best_account_match sample_lib ''Rent'' [acc_utilities, acc_rent] ''Expenses'' None
       = Inr (Some (acc_id acc_rent), Some (name acc_rent), 1,
              ''Exact substring match: '' @ q @ ''Rent'' @ q @ '' found in '' @ q
                @ name acc_rent @ q)"
proof -
  have h1: "''Rent'' \<noteq> []" by simp
  have h2: "filter_accounts [acc_utilities, acc_rent] ''Expenses'' = [acc_utilities] @ acc_rent # []"
    by code_simp
  have h3: "lower (name acc_rent) = lower ''Rent''" by code_simp
  have h4: "stage0 (apartment_numbers sample_lib ''Rent'' None) ''Expenses''
        (filter_accounts [acc_utilities, acc_rent] ''Expenses'') = None" by code_simp
  have h5: "stage1 ''Rent'' (strip (lower ''Rent'')) [acc_utilities] = Inr None" by code_simp
  from h1 h2 h3 h4 h5 exact_name_match [OF h1 h2 h3 h4 h5]
  show ?thesis by (intro conjI)
qed

text \<open>Three queries whose label equals the name of a filtered account up to case and that do
  not return it with 1.0: Stage 0 returns it first, with 0.98; an earlier account whose
  first word starts the label is returned, with 0.92; the label is empty.\<close>

theorem exact_name_match_counterexample:
  "(lower (name acc_rental_144) = lower ''Rental 144''
    \<and> acc_rental_144 \<in> set (filter_accounts [acc_rental_144] ''Income'')
    \<and> find_best_account_match sample_lib ''Rental 144'' [acc_rental_144] ''Income'' None
        = Inr (Some ''a1'', Some ''Rental 144'', 98 / 100,
               ''Apartment-specific match: Found apartment 144 in '' @ q @ ''Rental 144'' @ q))
   \<and> (lower (name acc_rent) = lower ''rent''
    \<and> acc_rent \<in> set (filter_accounts [acc_re_insurance, acc_rent] ''Expenses'')
    \<and> find_best_account_match sample_lib ''rent'' [acc_re_insurance, acc_rent] ''Expenses'' None
        = Inr (Some ''a1'', Some ''Re Insurance'', 92 / 100,
               ''Category prefix match: '' @ q @ ''rent'' @ q @ '' starts with '' @ q @ ''re'' @ q
                 @ '' from '' @ q @ ''Re Insurance'' @ q))
   \<and> (lower (name acc_unnamed) = lower []
    \<and> acc_unnamed \<in> set (filter_accounts [acc_unnamed] ''Expenses'')
    \<and> find_best_account_match sample_lib [] [acc_unnamed] ''Expenses'' None
        = Inr (None, None, 0, ''No category provided''))"
proof -
  have 1: "lower (name acc_rental_144) = lower ''Rental 144''" by code_simp
  have 2: "acc_rental_144 \<in> set (filter_accounts [acc_rental_144] ''Income'')" by code_simp
  have 3: "find_best_account_match sample_lib ''Rental 144'' [acc_rental_144] ''Income'' None
        = Inr (Some ''a1'', Some ''Rental 144'', 98 / 100,
               ''Apartment-specific match: Found apartment 144 in '' @ q @ ''Rental 144'' @ q)"
    by code_simp
  have 4: "lower (name acc_rent) = lower ''rent''" by code_simp
  have 5: "acc_rent \<in> set (filter_accounts [acc_re_insurance, acc_rent] ''Expenses'')"
    by code_simp
  have 6: "find_best_account_match sample_lib ''rent'' [acc_re_insurance, acc_rent] ''Expenses'' None
        = Inr (Some ''a1'', Some ''Re Insurance'', 92 / 100,
               ''Category prefix match: '' @ q @ ''rent'' @ q @ '' starts with '' @ q @ ''re'' @ q
                 @ '' from '' @ q @ ''Re Insurance'' @ q)" by code_simp
  have 7: "lower (name acc_unnamed) = lower []" by code_simp
  have 8: "acc_unnamed \<in> set (filter_accounts [acc_unnamed] ''Expenses'')" by code_simp
  have 9: "find_best_account_match sample_lib [] [acc_unnamed] ''Expenses'' None
        = Inr (None, None, 0, ''No category provided'')" by code_simp
  from 1 2 3 4 5 6 7 8 9 show ?thesis by (intro conjI)
qed

subsection \<open>C4\<close>

text \<open>
  Claim C4. Whatever the engine returns, the explanation is not empty; and an account
  identifier in the result is the identifier of an account of the supplied list that is
  not archived, whose name is the returned name.
\<close>

theorem result_invariant:
  assumes "find_best_account_match L c accounts t x = Inr r"
  shows "explanation_of r \<noteq> []
         \<and> (\<forall>i. account_id_of r = Some i \<longrightarrow>
               (\<exists>a \<in> set accounts. \<not> isArchived a \<and> acc_id a = i
                  \<and> account_name_of r = Some (name a)))"
proof (cases "c = [] \<or> filter_accounts accounts t = []")
  case True
  then have "r = (None, None, 0, ''No category provided'') \<or> r = (None, None, 0, error_msg t)"
    using assms by (auto simp: find_best_account_match_def Let_def split: if_splits)
  then show ?thesis
    using error_msg_nonempty by (auto simp: explanation_of_def account_id_of_def)
next
  case False
  then have "c \<noteq> []" and "filter_accounts accounts t \<noteq> []" by simp_all
  then have "\<exists>r'. find_best_account_match L c accounts t x = Inr r'
        \<and> good_result (filter_accounts accounts t) r'"
    by (rule engine_good)
  with assms have g: "good_result (filter_accounts accounts t) r" by simp
  then obtain a where a: "a \<in> set (filter_accounts accounts t)"
      "account_id_of r = Some (acc_id a)" "account_name_of r = Some (name a)"
    by (auto simp: good_result_def)
  from a(1) have "a \<in> set accounts \<and> \<not> isArchived a" by (rule filter_accounts_sound)
  with a g show ?thesis by (auto simp: good_result_def)
qed

text \<open>An instance.\<close>

theorem result_invariant_witness:
  "find_best_account_match sample_lib ''food'' [acc_meals] ''Expenses'' None
     = Inr (Some ''a1'', Some ''Meals & Entertainment'', 88 / 100,
            ''Synonym match: '' @ q @ ''food'' @ q @ '' relates to '' @ q @ ''meals'' @ q
              @ '' in '' @ q @ ''Meals & Entertainment'' @ q)
   \<and> (\<exists>a \<in> set [acc_meals]. \<not> isArchived a \<and> acc_id a = ''a1'')"
proof -
  let ?r = "(Some ''a1'', Some ''Meals & Entertainment'', 88 / 100 :: rat,
            ''Synonym match: '' @ q @ ''food'' @ q @ '' relates to '' @ q @ ''meals'' @ q
              @ '' in '' @ q @ ''Meals & Entertainment'' @ q)"
  have h: "find_best_account_match sample_lib ''food'' [acc_meals] ''Expenses'' None = Inr ?r"
    by code_simp
  have "account_id_of ?r = Some ''a1''" by (simp add: account_id_of_def)
  with result_invariant [OF h] have "\<exists>a \<in> set [acc_meals]. \<not> isArchived a \<and> acc_id a = ''a1''"
    by blast
  with h show ?thesis by (rule conjI)
qed

subsection \<open>C5\<close>

text \<open>
  Claim C5, as amended. The engine raises no exception: on every input it returns a
  result. When the filtered list is empty the result is \<open>(None, None, 0, diagnostic)\<close>;
  the diagnostic names the account class when the label is not empty, and is
  \<open>No category provided\<close> when the label is empty.
\<close>

theorem engine_total:
  "(\<exists>r. find_best_account_match L c accounts t x = Inr r)
   \<and> (filter_accounts accounts t = [] \<longrightarrow>
        find_best_account_match L c accounts t x
          = Inr (None, None, 0, if c = [] then ''No category provided'' else error_msg t))
   \<and> prefix (''No '' @ lower t @ '' accounts found.'') (error_msg t)"
proof (intro conjI)
  show "\<exists>r. find_best_account_match L c accounts t x = Inr r"
  proof (cases "c = [] \<or> filter_accounts accounts t = []")
    case True
    then show ?thesis by (auto simp: find_best_account_match_def Let_def)
  next
    case False
    then have "c \<noteq> []" and "filter_accounts accounts t \<noteq> []" by simp_all
    then have "\<exists>r. find_best_account_match L c accounts t x = Inr r
        \<and> good_result (filter_accounts accounts t) r"
      by (rule engine_good)
    then show ?thesis by blast
  qed
  show "filter_accounts accounts t = [] \<longrightarrow>
        find_best_account_match L c accounts t x
          = Inr (None, None, 0, if c = [] then ''No category provided'' else error_msg t)"
    by (simp add: find_best_account_match_def Let_def)
  show "prefix (''No '' @ lower t @ '' accounts found.'') (error_msg t)"
    by (simp add: error_msg_def)
qed

text \<open>An instance.\<close>

theorem engine_total_witness:
  "filter_accounts [] ''Income'' = []
   \<and> find_best_account_match sample_lib ''rent'' [] ''Income'' None
       = Inr (None, None, 0, error_msg ''Income'')"
proof -
  have h: "filter_accounts [] ''Income'' = []" by code_simp
  from engine_total [of sample_lib "''rent''" "[]" "''Income''" None] h
  have "find_best_account_match sample_lib ''rent'' [] ''Income'' None
       = Inr (None, None, 0, error_msg ''Income'')" by simp
  with h show ?thesis by (rule conjI)
qed

text \<open>With an empty label and no accounts the diagnostic does not name the account class.\<close>

theorem engine_total_counterexample:
  "filter_accounts [] ''Income'' = []
   \<and> find_best_account_match sample_lib [] [] ''Income'' None
       = Inr (None, None, 0, ''No category provided'')
   \<and> \<not> contains (lower ''Income'') ''No category provided''"
proof -
  have 1: "filter_accounts [] ''Income'' = []" by code_simp
  have 2: "find_best_account_match sample_lib [] [] ''Income'' None
       = Inr (None, None, 0, ''No category provided'')" by code_simp
  have 3: "\<not> contains (lower ''Income'') ''No category provided''" by code_simp
  from 1 2 3 show ?thesis by (intro conjI)
qed

subsection \<open>C6\<close>

text \<open>
  Claim C6. When Stages 0 and 1 return nothing and Stage 2 ends with a best match of
  score \<open>s\<close> and explanation \<open>e\<close>: the engine returns that match as Stage 2 left it
  exactly when \<open>s\<close> is at least 0.6; and when \<open>s\<close> is above 0.3 and below 0.6 it
  returns the same account and score, the explanation marked as low confidence and
  followed by the names of the first three filtered accounts (of all, when they are
  fewer).
\<close>

theorem stage2_thresholds:
  assumes "F = filter_accounts accounts t"
    and "stage0 (apartment_numbers L c x) t F = None"
    and "stage1 c (strip (lower c)) F = Inr None"
    and "stage2 L (select_synonyms t) c (strip (lower c)) F = (Some bm, s, e)"
  shows "(6 / 10 \<le> s \<longrightarrow>
            find_best_account_match L c accounts t x
              = Inr (Some (acc_id bm), Some (name bm), s, e))
         \<and> (s < 6 / 10 \<longrightarrow>
            find_best_account_match L c accounts t x
              \<noteq> Inr (Some (acc_id bm), Some (name bm), s, e))
         \<and> (3 / 10 < s \<and> s < 6 / 10 \<longrightarrow>
            find_best_account_match L c accounts t x
              = Inr (Some (acc_id bm), Some (name bm), s,
                     ''Best available match (low confidence): '' @ e
                       @ ''. Available accounts: '' @ join '', '' (map name (take 3 F))))"
proof -
  have F: "F \<noteq> []" using assms(4) by (auto simp: stage2_Nil)
  have c: "c \<noteq> []" using assms(3) F stage1_empty_label [of c F] by auto
  have inv: "stage2_inv F (Some bm, s, e)" using inv_stage2 [of F L "select_synonyms t" c "strip (lower c)"] assms(4) by simp
  then have e: "take 2 e \<in> set [''Di'', ''Wo'', ''Sy'']" by (simp add: stage2_inv_def)
  have eq: "find_best_account_match L c accounts t x =
      (if 6 / 10 \<le> s then Inr (Some (acc_id bm), Some (name bm), s, e)
       else stage3 (select_synonyms t) c (strip (lower c)) t F (Some bm, s, e))"
    using c F assms by (simp add: engine_pipeline match_pipeline_def Let_def)
  have low: "3 / 10 < s \<Longrightarrow> stage3 (select_synonyms t) c (strip (lower c)) t F (Some bm, s, e)
      = Inr (Some (acc_id bm), Some (name bm), s,
                     ''Best available match (low confidence): '' @ e
                       @ ''. Available accounts: '' @ join '', '' (map name (take 3 F)))"
    using F by (simp add: stage3_def low_confidence_result_def available_def)
  have p1: "6 / 10 \<le> s \<longrightarrow>
            find_best_account_match L c accounts t x
              = Inr (Some (acc_id bm), Some (name bm), s, e)"
    using eq by simp
  have p3: "3 / 10 < s \<and> s < 6 / 10 \<longrightarrow>
            find_best_account_match L c accounts t x
              = Inr (Some (acc_id bm), Some (name bm), s,
                     ''Best available match (low confidence): '' @ e
                       @ ''. Available accounts: '' @ join '', '' (map name (take 3 F)))"
    using eq low by simp
  have p2: "s < 6 / 10 \<longrightarrow>
            find_best_account_match L c accounts t x
              \<noteq> Inr (Some (acc_id bm), Some (name bm), s, e)"
  proof
    assume lt: "s < 6 / 10"
    show "find_best_account_match L c accounts t x
              \<noteq> Inr (Some (acc_id bm), Some (name bm), s, e)"
    proof (cases "3 / 10 < s")
      case True
      with lt eq low show ?thesis by simp
    next
      case False
      then have "stage3 (select_synonyms t) c (strip (lower c)) t F (Some bm, s, e)
          = fallback (select_synonyms t) c (strip (lower c)) t F"
        using F by (simp add: stage3_def)
      moreover obtain r where r: "fallback (select_synonyms t) c (strip (lower c)) t F = Inr r"
          "fallback_ok F r" using fallback_total [OF F] by blast
      ultimately have res: "find_best_account_match L c accounts t x = Inr r"
        using eq lt by simp
      from r(2) have "take 2 (explanation_of r) \<in> set [''Fa'', ''Sm'', ''No'']"
        by (simp add: fallback_ok_def)
      with e have "explanation_of r \<noteq> e" by auto
      then have "r \<noteq> (Some (acc_id bm), Some (name bm), s, e)"
        by (auto simp: explanation_of_def)
      with res show ?thesis by simp
    qed
  qed
  from p1 p2 p3 show ?thesis by blast
qed

text \<open>An instance of the low-confidence case.\<close>

theorem stage2_thresholds_witness:
  "stage0 (apartment_numbers sample_lib ''stamps'' None) ''Expenses''
       (filter_accounts [acc_postage] ''Expenses'') = None
   \<and> stage1 ''stamps'' (strip (lower ''stamps'')) (filter_accounts [acc_postage] ''Expenses'')
       = Inr None
   \<and> stage2 sample_lib (select_synonyms ''Expenses'') ''stamps'' (strip (lower ''stamps''))
       (filter_accounts [acc_postage] ''Expenses'')
       = (Some acc_postage, 6 / 13,
          ''Word match: '' @ q @ ''stamps'' @ q @ '' ~ '' @ q @ ''postage'' @ q
            @ '' (score: 0.46)'')
   \<and> find_best_account_match sample_lib ''stamps'' [acc_postage] ''Expenses'' None
       = Inr (Some (acc_id acc_postage), Some (name acc_postage), 6 / 13,
              ''Best available match (low confidence): ''
                @ (''Word match: '' @ q @ ''stamps'' @ q @ '' ~ '' @ q @ ''postage'' @ q
                     @ '' (score: 0.46)'')
                @ ''. Available accounts: ''
                @ join '', '' (map name (take 3 (filter_accounts [acc_postage] ''Expenses''))))"
proof -
  have h2: "stage0 (apartment_numbers sample_lib ''stamps'' None) ''Expenses''
       (filter_accounts [acc_postage] ''Expenses'') = None" by code_simp
  have h3: "stage1 ''stamps'' (strip (lower ''stamps''))
       (filter_accounts [acc_postage] ''Expenses'') = Inr None" by code_simp
  have h4: "stage2 sample_lib (select_synonyms ''Expenses'') ''stamps'' (strip (lower ''stamps''))
       (filter_accounts [acc_postage] ''Expenses'')
       = (Some acc_postage, 6 / 13,
          ''Word match: '' @ q @ ''stamps'' @ q @ '' ~ '' @ q @ ''postage'' @ q
            @ '' (score: 0.46)'')" by code_simp
  have b: "(3 / 10 :: rat) < 6 / 13 \<and> (6 / 13 :: rat) < 6 / 10" by simp
  from stage2_thresholds [OF refl h2 h3 h4] b
  have "find_best_account_match sample_lib ''stamps'' [acc_postage] ''Expenses'' None
       = Inr (Some (acc_id acc_postage), Some (name acc_postage), 6 / 13,
              ''Best available match (low confidence): ''
                @ (''Word match: '' @ q @ ''stamps'' @ q @ '' ~ '' @ q @ ''postage'' @ q
                     @ '' (score: 0.46)'')
                @ ''. Available accounts: ''
                @ join '', '' (map name (take 3 (filter_accounts [acc_postage] ''Expenses''))))"
    by blast
  with h2 h3 h4 show ?thesis by (intro conjI)
qed

subsection \<open>C7\<close>

text \<open>
  Claim C7. In the synonym lookup of Stage 2, for an entry of the table that the label
  is the key or a synonym of, the running best score becomes the greatest of its old
  value and the candidates of the entry: 0.90 when the key occurs in the account name,
  0.85 for a synonym that occurs in it, and 0.88 for the key or a synonym that occurs in
  it. When Stages 0 and 1 return nothing and the key or a synonym of such an entry
  occurs in the name of a filtered account, the engine returns a filtered account with
  the greatest of all candidate scores of Stage 2, which is at least 0.88, and at least
  0.90 when the key occurs.
\<close>

theorem synonym_scores:
  assumes "F = filter_accounts accounts t"
    and "stage0 (apartment_numbers L c x) t F = None"
    and "stage1 c (strip (lower c)) F = Inr None"
    and "entry \<in> set (select_synonyms t)"
    and "strip (lower c) = fst entry \<or> strip (lower c) \<in> set (snd entry)"
    and "a \<in> set F"
    and "\<exists>k \<in> set (fst entry # snd entry). contains k (lower (name a))"
  shows "best_score_of (synonym_step c (strip (lower c)) a entry b)
           = Max (set (best_score_of b # spec_synonym_scores (strip (lower c)) (lower (name a)) entry))
         \<and> (\<exists>bm e. bm \<in> set F
               \<and> find_best_account_match L c accounts t x
                   = Inr (Some (acc_id bm), Some (name bm),
                          Max (set (0 # spec_stage2_scores L (select_synonyms t) (strip (lower c)) F)),
                          e))
         \<and> 88 / 100 \<le> Max (set (0 # spec_stage2_scores L (select_synonyms t) (strip (lower c)) F))
         \<and> (contains (fst entry) (lower (name a)) \<longrightarrow>
              9 / 10 \<le> Max (set (0 # spec_stage2_scores L (select_synonyms t) (strip (lower c)) F)))"
proof -
  let ?u = "strip (lower c)"
  let ?syn = "select_synonyms t"
  let ?M = "Max (set (0 # spec_stage2_scores L ?syn ?u F))"
  have p1: "best_score_of (synonym_step c ?u a entry b)
           = Max (set (best_score_of b # spec_synonym_scores ?u (lower (name a)) entry))"
    by (simp only: bs_synonym_step Max.set_eq_fold)
  from assms(7) obtain k where k: "k \<in> set (fst entry # snd entry)" "contains k (lower (name a))"
    by blast
  then have "88 / 100 \<in> set (spec_synonym_scores ?u (lower (name a)) entry)"
    using assms(5) by (auto simp: spec_synonym_scores_def)
  then have "88 / 100 \<in> set (spec_stage2_scores L ?syn ?u F)"
    using assms(4,6) by (auto simp: spec_stage2_scores_def spec_account_scores_def)
  then have p3: "88 / 100 \<le> ?M" by (intro fold_max_ge) simp
  have p4: "contains (fst entry) (lower (name a)) \<longrightarrow> 9 / 10 \<le> ?M"
  proof
    assume "contains (fst entry) (lower (name a))"
    then have "9 / 10 \<in> set (spec_synonym_scores ?u (lower (name a)) entry)"
      using assms(5) by (auto simp: spec_synonym_scores_def)
    then have "9 / 10 \<in> set (spec_stage2_scores L ?syn ?u F)"
      using assms(4,6) by (auto simp: spec_stage2_scores_def spec_account_scores_def)
    then show "9 / 10 \<le> ?M" by (intro fold_max_ge) simp
  qed
  have F: "F \<noteq> []" using assms(6) by auto
  have c: "c \<noteq> []" using assms(3) F stage1_empty_label [of c F] by auto
  obtain bm s e where b2: "stage2 L ?syn c ?u F = (bm, s, e)"
    by (cases "stage2 L ?syn c ?u F") auto
  have s: "s = ?M" using bs_stage2 [of L ?syn c ?u F] b2 by (simp add: best_score_of_def)
  have inv: "stage2_inv F (bm, s, e)" using inv_stage2 [of F L ?syn c ?u] b2 by simp
  from p3 s have s88: "88 / 100 \<le> s" by simp
  with inv obtain m where m: "bm = Some m" "m \<in> set F"
    by (cases bm) (auto simp: stage2_inv_def)
  have "find_best_account_match L c accounts t x = Inr (Some (acc_id m), Some (name m), s, e)"
    using c F assms(1-3) b2 m s88 by (simp add: engine_pipeline match_pipeline_def Let_def)
  with m s have p2: "\<exists>bm e. bm \<in> set F
               \<and> find_best_account_match L c accounts t x
                   = Inr (Some (acc_id bm), Some (name bm), ?M, e)" by blast
  from p1 p2 p3 p4 show ?thesis by blast
qed

text \<open>An instance: the label \<open>food\<close> and the account \<open>Meals & Entertainment\<close>.\<close>

theorem synonym_scores_witness:
  "stage0 (apartment_numbers sample_lib ''food'' None) ''Expenses''
       (filter_accounts [acc_meals] ''Expenses'') = None
   \<and> stage1 ''food'' (strip (lower ''food'')) (filter_accounts [acc_meals] ''Expenses'') = Inr None
   \<and> (''food'', [''meals'', ''restaurant'', ''dining'', ''eating'', ''lunch'', ''dinner'',
                  ''breakfast'']) \<in> set (select_synonyms ''Expenses'')
   \<and> acc_meals \<in> set (filter_accounts [acc_meals] ''Expenses'')
   \<and> contains ''meals'' (lower (name acc_meals))
   \<and> Max (set (0 # spec_stage2_scores sample_lib (select_synonyms ''Expenses'')
                     (strip (lower ''food'')) (filter_accounts [acc_meals] ''Expenses'')))
       = 88 / 100
   \<and> (\<exists>bm e. bm \<in> set (filter_accounts [acc_meals] ''Expenses'')
         \<and> find_best_account_match sample_lib ''food'' [acc_meals] ''Expenses'' None
             = Inr (Some (acc_id bm), Some (name bm), 88 / 100, e))"
proof -
  let ?entry = "(''food'', [''meals'', ''restaurant'', ''dining'', ''eating'', ''lunch'',
                  ''dinner'', ''breakfast''])"
  have h2: "stage0 (apartment_numbers sample_lib ''food'' None) ''Expenses''
       (filter_accounts [acc_meals] ''Expenses'') = None" by code_simp
  have h3: "stage1 ''food'' (strip (lower ''food'')) (filter_accounts [acc_meals] ''Expenses'')
       = Inr None" by code_simp
  have h4: "?entry \<in> set (select_synonyms ''Expenses'')" by code_simp
  have h5: "strip (lower ''food'') = fst ?entry \<or> strip (lower ''food'') \<in> set (snd ?entry)"
    by code_simp
  have h6: "acc_meals \<in> set (filter_accounts [acc_meals] ''Expenses'')" by code_simp
  have k: "contains ''meals'' (lower (name acc_meals))" by code_simp
  then have h7: "\<exists>k \<in> set (fst ?entry # snd ?entry). contains k (lower (name acc_meals))"
    by simp
  have m: "Max (set (0 # spec_stage2_scores sample_lib (select_synonyms ''Expenses'')
                     (strip (lower ''food'')) (filter_accounts [acc_meals] ''Expenses'')))
       = 88 / 100" by code_simp
  from synonym_scores [OF refl h2 h3 h4 h5 h6 h7]
  have "\<exists>bm e. bm \<in> set (filter_accounts [acc_meals] ''Expenses'')
         \<and> find_best_account_match sample_lib ''food'' [acc_meals] ''Expenses'' None
             = Inr (Some (acc_id bm), Some (name bm), 88 / 100, e)"
    unfolding m by blast
  with h2 h3 h4 h6 k m show ?thesis by (intro conjI)
qed

subsection \<open>C8\<close>

text \<open>
  Claim C8. The filter returns the result of the first of its four strategies that is
  not empty, in the order 1, 2, 3, 4; strategies 3 and 4 are tried only for the class
  \<open>Income\<close>; every strategy, and so the filter, returns only accounts of the supplied
  list that are not archived.
\<close>

theorem filter_strategy_order:
  "filter_accounts accounts t =
     (if strategy1 accounts t \<noteq> [] then strategy1 accounts t
      else if strategy2 accounts t \<noteq> [] then strategy2 accounts t
      else if t \<noteq> ''Income'' then []
      else if strategy3 accounts \<noteq> [] then strategy3 accounts
      else strategy4 accounts)
   \<and> (\<forall>a \<in> set (strategy1 accounts t) \<union> set (strategy2 accounts t)
            \<union> set (strategy3 accounts) \<union> set (strategy4 accounts).
         a \<in> set accounts \<and> \<not> isArchived a)
   \<and> (\<forall>a \<in> set (filter_accounts accounts t). a \<in> set accounts \<and> \<not> isArchived a)"
proof (intro conjI)
  show "filter_accounts accounts t =
     (if strategy1 accounts t \<noteq> [] then strategy1 accounts t
      else if strategy2 accounts t \<noteq> [] then strategy2 accounts t
      else if t \<noteq> ''Income'' then []
      else if strategy3 accounts \<noteq> [] then strategy3 accounts
      else strategy4 accounts)"
    by (rule filter_accounts_cases)
  show "\<forall>a \<in> set (strategy1 accounts t) \<union> set (strategy2 accounts t)
            \<union> set (strategy3 accounts) \<union> set (strategy4 accounts).
         a \<in> set accounts \<and> \<not> isArchived a"
    using strategies_sound by blast
  show "\<forall>a \<in> set (filter_accounts accounts t). a \<in> set accounts \<and> \<not> isArchived a"
    using filter_accounts_sound by blast
qed

text \<open>An instance: strategy 1 finds nothing, strategy 2 finds the account whose type is
  written in lower case, and the archived account is left out.\<close>

theorem filter_strategy_order_witness:
  "strategy1 [acc_lowercase_type, acc_archived] ''Income'' = []
   \<and> strategy2 [acc_lowercase_type, acc_archived] ''Income'' = [acc_lowercase_type]
   \<and> filter_accounts [acc_lowercase_type, acc_archived] ''Income'' = [acc_lowercase_type]"
proof -
  have s1: "strategy1 [acc_lowercase_type, acc_archived] ''Income'' = []" by code_simp
  have s2: "strategy2 [acc_lowercase_type, acc_archived] ''Income'' = [acc_lowercase_type]"
    by code_simp
  from filter_strategy_order [of "[acc_lowercase_type, acc_archived]" "''Income''"]
  have "filter_accounts [acc_lowercase_type, acc_archived] ''Income'' = [acc_lowercase_type]"
    by (simp add: s1 s2)
  with s1 s2 show ?thesis by simp
qed

subsection \<open>C9\<close>

text \<open>
  Claim C9, as amended. The extracted tokens, as a set, are the union of the matches of
  the four patterns in the lower-cased text made of the label, one space and the context
  (nothing when there is no context); no token is listed twice; and any list of the same
  patterns, in whatever order, gives the same set.
\<close>

theorem extractor_union:
  assumes "set_order_ok L"
  shows "set (apartment_numbers L c x) =
           set (findall pat_unit_range (lower (all_user_text c x)))
           \<union> set (findall pat_apartment (lower (all_user_text c x)))
           \<union> set (findall pat_unit (lower (all_user_text c x)))
           \<union> set (findall pat_three_digits (lower (all_user_text c x)))
         \<and> distinct (apartment_numbers L c x)
         \<and> (\<forall>ps. set ps = set number_patterns \<longrightarrow>
               set (extract_numbers L ps c x) = set (apartment_numbers L c x))"
proof -
  have e: "set (extract_numbers L ps c x)
             = (\<Union>p \<in> set ps. set (findall p (lower (all_user_text c x))))" for ps
    using assms by (simp add: extract_numbers_def set_order_ok_def pattern_matches_concat)
  have d: "distinct (apartment_numbers L c x)"
    using assms by (simp add: apartment_numbers_def extract_numbers_def set_order_ok_def)
  have u: "set (apartment_numbers L c x) =
           set (findall pat_unit_range (lower (all_user_text c x)))
           \<union> set (findall pat_apartment (lower (all_user_text c x)))
           \<union> set (findall pat_unit (lower (all_user_text c x)))
           \<union> set (findall pat_three_digits (lower (all_user_text c x)))"
    unfolding apartment_numbers_def e by (auto simp: number_patterns_def)
  have r: "\<forall>ps. set ps = set number_patterns \<longrightarrow>
               set (extract_numbers L ps c x) = set (apartment_numbers L c x)"
    unfolding apartment_numbers_def e by simp
  from u d r show ?thesis by blast
qed

text \<open>An instance.\<close>

theorem extractor_union_witness:
  "set_order_ok sample_lib
   \<and> set (apartment_numbers sample_lib ''rent'' (Some ''apartment 144 payment'')) = {''144''}"
proof -
  have h: "set_order_ok sample_lib" by (simp add: set_order_ok_def sample_lib_def)
  have e1: "findall pat_unit_range (lower (all_user_text ''rent'' (Some ''apartment 144 payment'')))
              = [''144'']" by code_simp
  have e2: "findall pat_apartment (lower (all_user_text ''rent'' (Some ''apartment 144 payment'')))
              = [''144'']" by code_simp
  have e3: "findall pat_unit (lower (all_user_text ''rent'' (Some ''apartment 144 payment'')))
              = []" by code_simp
  have e4: "findall pat_three_digits (lower (all_user_text ''rent'' (Some ''apartment 144 payment'')))
              = [''144'']" by code_simp
  from extractor_union [OF h, of "''rent''" "Some ''apartment 144 payment''"]
  have "set (apartment_numbers sample_lib ''rent'' (Some ''apartment 144 payment'')) = {''144''}"
    by (simp add: e1 e2 e3 e4)
  with h show ?thesis by (rule conjI)
qed

text \<open>The text is not the label directly followed by the context: for the label
  \<open>rent\<close> and the context \<open>144\<close> the token 144 is extracted, and no pattern matches in
  \<open>rent144\<close>, where no word boundary stands before the digits.\<close>

theorem extractor_union_counterexample:
  "apartment_numbers sample_lib ''rent'' (Some ''144'') = [''144'']
   \<and> findall pat_unit_range (lower (''rent'' @ ''144'')) = []
   \<and> findall pat_apartment (lower (''rent'' @ ''144'')) = []
   \<and> findall pat_unit (lower (''rent'' @ ''144'')) = []
   \<and> findall pat_three_digits (lower (''rent'' @ ''144'')) = []"
proof -
  have 1: "apartment_numbers sample_lib ''rent'' (Some ''144'') = [''144'']" by code_simp
  have 2: "findall pat_unit_range (lower (''rent'' @ ''144'')) = []" by code_simp
  have 3: "findall pat_apartment (lower (''rent'' @ ''144'')) = []" by code_simp
  have 4: "findall pat_unit (lower (''rent'' @ ''144'')) = []" by code_simp
  have 5: "findall pat_three_digits (lower (''rent'' @ ''144'')) = []" by code_simp
  from 1 2 3 4 5 show ?thesis by (intro conjI)
qed

subsection \<open>C10\<close>

text \<open>
  Claim C10. With an empty label the engine returns \<open>(None, None, 0, No category provided)\<close>
  whatever the candidates and the account class are.
\<close>

theorem empty_category:
  "find_best_account_match L [] accounts t x = Inr (None, None, 0, ''No category provided'')"
  by (simp add: find_best_account_match_def)

text \<open>An instance in which a non-archived account of the requested class exists.\<close>

theorem empty_category_witness:
  "find_best_account_match sample_lib [] [acc_sales] ''Income'' None
     = Inr (None, None, 0, ''No category provided'')
   \<and> filter_accounts [acc_sales] ''Income'' = [acc_sales]"
proof -
  have h: "filter_accounts [acc_sales] ''Income'' = [acc_sales]" by code_simp
  from empty_category [of sample_lib "[acc_sales]" "''Income''" None] h
  show ?thesis by (rule conjI)
qed

end
